theory Spec2Isabelle
  imports Main
begin

section \<open>The D3D11 shader factory (Modules/Gfx/d3d11/d3d11ShaderFactory.cc)\<close>

subsection \<open>Values, pointers and build mode\<close>

text \<open>
  A pointer is an address, \<open>0\<close> being \<open>nullptr\<close>. An \<open>HRESULT\<close> is a signed status,
  and \<open>SUCCEEDED(hr)\<close> is \<open>hr >= 0\<close>. The build mode is a flag \<open>dbg\<close> passed to every
  operation: \<open>True\<close> for a debug build, \<open>False\<close> for an optimized one.
\<close>

type_synonym ptr = nat

abbreviation nullptr :: ptr where
  "nullptr \<equiv> 0"

type_synonym HRESULT = int

definition SUCCEEDED :: "HRESULT \<Rightarrow> bool" where
  "SUCCEEDED hr = (0 \<le> hr)"

text \<open>
  What ends a call without a return: a failed \<open>o_assert_dbg\<close>, a failed \<open>o_assert\<close>, or a
  call through a null pointer (which the source does not guard in an optimized build).
\<close>

datatype fault = AssertDbgFailed | AssertFailed | NullPointerDeref

text \<open>
  Modelled from the spec: the assertion macros \<open>o_assert\<close> and \<open>o_assert_dbg\<close>, which are
  defined outside the two source files. \<open>o_assert_dbg\<close> is a debug-only contract assertion,
  disabled in optimized builds; \<open>o_assert\<close> guards the device-level creation calls, whose
  failure is fatal in every build. Each yields \<open>True\<close> when execution continues.
\<close>

definition o_assert :: "bool \<Rightarrow> bool" where
  "o_assert cond = cond"

definition o_assert_dbg :: "bool \<Rightarrow> bool \<Rightarrow> bool" where
  "o_assert_dbg dbg cond = (if dbg then cond else True)"

text \<open>
  Modelled from the spec: \<open>ShaderType::Code\<close>, declared outside the source files: the shader
  stage a uniform block attaches to. The factory names \<open>InvalidShaderType\<close> only.
\<close>

datatype ShaderType = VertexShader | FragmentShader | InvalidShaderType

text \<open>
  Modelled from the spec: \<open>ResourceState::Code\<close>, declared outside the source files. Only
  \<open>Valid\<close> (the success state) occurs in the factory; \<open>Failed\<close> stands for an error result.
\<close>

datatype ResourceState = Valid | Failed

subsection \<open>The program description (ShaderSetup)\<close>

text \<open>
  Modelled from the spec: the Shader Program Description and its accessors, whose class is
  declared outside the source files. A program variant has a mask and, for the shading
  language the factory asks for (HLSL5), a vertex-stage and a fragment-stage bytecode
  reference (pointer and byte length). A uniform block has a bind slot, a shader stage and
  the byte size of its non-texture data.
\<close>

record program =
  progMask :: nat
  vsPtr :: ptr
  vsSize :: nat
  psPtr :: ptr
  psSize :: nat

record uniformBlock =
  bindSlot :: int
  shaderStage :: ShaderType
  byteSize :: int

record ShaderSetup =
  programs :: "program list"
  uniformBlocks :: "uniformBlock list"

definition NumPrograms :: "ShaderSetup \<Rightarrow> nat" where
  "NumPrograms setup = length (programs setup)"

definition VertexShaderByteCode :: "ShaderSetup \<Rightarrow> nat \<Rightarrow> ptr \<times> nat" where
  "VertexShaderByteCode setup progIndex =
     (vsPtr (programs setup ! progIndex), vsSize (programs setup ! progIndex))"

definition FragmentShaderByteCode :: "ShaderSetup \<Rightarrow> nat \<Rightarrow> ptr \<times> nat" where
  "FragmentShaderByteCode setup progIndex =
     (psPtr (programs setup ! progIndex), psSize (programs setup ! progIndex))"

definition Mask :: "ShaderSetup \<Rightarrow> nat \<Rightarrow> nat" where
  "Mask setup progIndex = progMask (programs setup ! progIndex)"

definition NumUniformBlocks :: "ShaderSetup \<Rightarrow> nat" where
  "NumUniformBlocks setup = length (uniformBlocks setup)"

definition UniformBlockSlot :: "ShaderSetup \<Rightarrow> nat \<Rightarrow> int" where
  "UniformBlockSlot setup i = bindSlot (uniformBlocks setup ! i)"

definition UniformBlockShaderStage :: "ShaderSetup \<Rightarrow> nat \<Rightarrow> ShaderType" where
  "UniformBlockShaderStage setup i = shaderStage (uniformBlocks setup ! i)"

text \<open>\<open>setup.UniformBlockLayout(i).ByteSizeWithoutTextures()\<close>\<close>

definition ByteSizeWithoutTextures :: "ShaderSetup \<Rightarrow> nat \<Rightarrow> int" where
  "ByteSizeWithoutTextures setup i = byteSize (uniformBlocks setup ! i)"

subsection \<open>The shader resource\<close>

text \<open>
  Modelled from the spec: the Shader Resource (class \<open>shader\<close>, declared outside the source
  files): an ordered sequence of variants, each a mask with a vertex-stage and a
  fragment-stage object, and an ordered sequence of uniform entries, each a nullable buffer
  handle with its shader stage and bind slot. \<open>addShaders\<close> and \<open>addUniformBlockEntry\<close>
  append, the getters read by index, \<open>Clear\<close> empties both sequences.
\<close>

record variantEntry =
  veMask :: nat
  vertexShader :: ptr
  pixelShader :: ptr

record uniformEntry =
  ubBuffer :: ptr
  ubStage :: ShaderType
  ubSlot :: int

record shader =
  shdSetup :: ShaderSetup
  variants :: "variantEntry list"
  uniformEntries :: "uniformEntry list"

definition addShaders :: "nat \<Rightarrow> ptr \<Rightarrow> ptr \<Rightarrow> shader \<Rightarrow> shader" where
  "addShaders m vs ps shd =
     shd\<lparr>variants := variants shd @ [\<lparr>veMask = m, vertexShader = vs, pixelShader = ps\<rparr>]\<rparr>"

definition addUniformBlockEntry :: "ptr \<Rightarrow> ShaderType \<Rightarrow> int \<Rightarrow> shader \<Rightarrow> shader" where
  "addUniformBlockEntry cb bindStage slot shd =
     shd\<lparr>uniformEntries := uniformEntries shd @ [\<lparr>ubBuffer = cb, ubStage = bindStage, ubSlot = slot\<rparr>]\<rparr>"

definition getNumPrograms :: "shader \<Rightarrow> nat" where
  "getNumPrograms shd = length (variants shd)"

definition getVertexShaderAt :: "shader \<Rightarrow> nat \<Rightarrow> ptr" where
  "getVertexShaderAt shd progIndex = vertexShader (variants shd ! progIndex)"

definition getPixelShaderAt :: "shader \<Rightarrow> nat \<Rightarrow> ptr" where
  "getPixelShaderAt shd progIndex = pixelShader (variants shd ! progIndex)"

definition getNumUniformBlockEntries :: "shader \<Rightarrow> nat" where
  "getNumUniformBlockEntries shd = length (uniformEntries shd)"

definition getUniformBlockEntryAt :: "shader \<Rightarrow> nat \<Rightarrow> ptr" where
  "getUniformBlockEntryAt shd cbIndex = ubBuffer (uniformEntries shd ! cbIndex)"

definition Clear :: "shader \<Rightarrow> shader" where
  "Clear shd = shd\<lparr>variants := [], uniformEntries := []\<rparr>"

definition Empty :: "shader \<Rightarrow> bool" where
  "Empty shd = (variants shd = [] \<and> uniformEntries shd = [])"

subsection \<open>The device and the renderer: collaborator calls as a trace\<close>

text \<open>
  \<open>D3D11_BUFFER_DESC\<close> with the two constants of the Direct3D headers the factory uses.
\<close>

record D3D11_BUFFER_DESC =
  ByteWidth :: nat
  Usage :: nat
  BindFlags :: nat
  CPUAccessFlags :: nat
  MiscFlags :: nat
  StructureByteStride :: nat

definition D3D11_USAGE_DEFAULT :: nat where
  "D3D11_USAGE_DEFAULT = 0"

definition D3D11_BIND_CONSTANT_BUFFER :: nat where
  "D3D11_BIND_CONSTANT_BUFFER = 4"

text \<open>\<open>Memory::Clear(&cbDesc, sizeof(cbDesc))\<close>\<close>

definition clearedDesc :: D3D11_BUFFER_DESC where
  "clearedDesc = \<lparr>ByteWidth = 0, Usage = 0, BindFlags = 0, CPUAccessFlags = 0,
                   MiscFlags = 0, StructureByteStride = 0\<rparr>"

text \<open>
  Every call the factory makes on a collaborator is recorded, in order, in a trace: the
  renderer's \<open>invalidateShaderState\<close>, a creation request to the device together with the
  status and the out-pointer the device answered, and a \<open>Release\<close> on a device object.
  The device is external: it is any function from the calls made so far and the request
  to a status and an out-pointer.
\<close>

datatype request =
    CreateVertexShader ptr nat
  | CreatePixelShader ptr nat
  | CreateBuffer D3D11_BUFFER_DESC

datatype objKind = VertexStage | FragmentStage | ConstantBuffer

datatype event =
    InvalidateShaderState
  | DeviceCreate request HRESULT ptr
  | Release objKind ptr

type_synonym device = "event list \<Rightarrow> request \<Rightarrow> HRESULT \<times> ptr"

type_synonym 'a outcome = "fault \<times> event list + 'a"

text \<open>
  \<open>this->d3d11Device->Create...(...)\<close>: a call through the factory's device pointer.
\<close>

definition deviceCall ::
  "device \<Rightarrow> ptr \<Rightarrow> request \<Rightarrow> event list \<Rightarrow> (HRESULT \<times> ptr \<times> event list) outcome" where
  "deviceCall dev d3d11Dev req tr =
     (if d3d11Dev = nullptr then Inl (NullPointerDeref, tr)
      else case dev tr req of (hr, out) \<Rightarrow> Inr (hr, out, tr @ [DeviceCreate req hr out]))"

subsection \<open>The factory\<close>

text \<open>
  Of the renderer the factory reads the member \<open>d3d11Device\<close> and calls
  \<open>invalidateShaderState\<close>; of \<open>gfxPointers\<close> it reads the member \<open>renderer\<close>, a pointer
  that is null in a default-constructed \<open>gfxPointers\<close>. Both are declared outside the source
  files.
\<close>

record d3d11Renderer =
  rendererDevice :: ptr

record gfxPointers =
  renderer :: "d3d11Renderer option"

record d3d11ShaderFactory =
  pointers :: gfxPointers
  d3d11Device :: ptr
  isValid :: bool

text \<open>The constructor.\<close>

definition newFactory :: d3d11ShaderFactory where
  "newFactory = \<lparr>pointers = \<lparr>renderer = None\<rparr>, d3d11Device = nullptr, isValid = False\<rparr>"

definition Setup :: "bool \<Rightarrow> gfxPointers \<Rightarrow> d3d11ShaderFactory \<Rightarrow> fault + d3d11ShaderFactory" where
  "Setup dbg ptrs this =
     (if \<not> o_assert_dbg dbg (\<not> isValid this) then Inl AssertDbgFailed
      else case renderer ptrs of
             None \<Rightarrow> Inl NullPointerDeref
           | Some r \<Rightarrow> Inr (this\<lparr>isValid := True, pointers := ptrs, d3d11Device := rendererDevice r\<rparr>))"

definition Discard :: "bool \<Rightarrow> d3d11ShaderFactory \<Rightarrow> fault + d3d11ShaderFactory" where
  "Discard dbg this =
     (if \<not> o_assert_dbg dbg (isValid this) then Inl AssertDbgFailed
      else Inr (this\<lparr>isValid := False, pointers := \<lparr>renderer = None\<rparr>, d3d11Device := nullptr\<rparr>))"

text \<open>The destructor: \<open>o_assert_dbg(!this->isValid)\<close>.\<close>

definition destroyFactory :: "bool \<Rightarrow> d3d11ShaderFactory \<Rightarrow> fault + unit" where
  "destroyFactory dbg this =
     (if \<not> o_assert_dbg dbg (\<not> isValid this) then Inl AssertDbgFailed else Inr ())"

definition IsValid :: "d3d11ShaderFactory \<Rightarrow> bool" where
  "IsValid this = isValid this"

text \<open>
  Modelled from the spec: \<open>Memory::RoundUp\<close>, defined outside the source files: the value
  rounded up to the next multiple of the granularity.
\<close>

definition RoundUp :: "int \<Rightarrow> int \<Rightarrow> int" where
  "RoundUp val roundTo = ((val + (roundTo - 1)) div roundTo) * roundTo"

text \<open>The conversion of an \<open>int32\<close> to the \<open>UINT\<close> field \<open>ByteWidth\<close>.\<close>

definition toUINT :: "int \<Rightarrow> nat" where
  "toUINT x = nat (x mod 2 ^ 32)"

text \<open>
  The body of the loop over the programs: the vertex shader and the pixel shader of the
  program at \<open>progIndex\<close> are created from their bytecode and added to the resource.
\<close>

definition SetupResource_program ::
  "bool \<Rightarrow> device \<Rightarrow> d3d11ShaderFactory \<Rightarrow> ShaderSetup \<Rightarrow> nat \<Rightarrow> shader \<times> event list
     \<Rightarrow> (shader \<times> event list) outcome" where
  "SetupResource_program dbg dev this setup progIndex st =
     (let shd = fst st; tr = snd st;
          vsP = fst (VertexShaderByteCode setup progIndex);
          vsS = snd (VertexShaderByteCode setup progIndex)
      in
      if \<not> o_assert_dbg dbg (vsP \<noteq> nullptr) then Inl (AssertDbgFailed, tr) else
      (case deviceCall dev (d3d11Device this) (CreateVertexShader vsP vsS) tr of
         Inl e \<Rightarrow> Inl e
       | Inr (hr, vs, tr1) \<Rightarrow>
           if \<not> o_assert (SUCCEEDED hr) then Inl (AssertFailed, tr1) else
           if \<not> o_assert_dbg dbg (vs \<noteq> nullptr) then Inl (AssertDbgFailed, tr1) else
           (let psP = fst (FragmentShaderByteCode setup progIndex);
                psS = snd (FragmentShaderByteCode setup progIndex)
            in
            if \<not> o_assert_dbg dbg (psP \<noteq> nullptr) then Inl (AssertDbgFailed, tr1) else
            (case deviceCall dev (d3d11Device this) (CreatePixelShader psP psS) tr1 of
               Inl e \<Rightarrow> Inl e
             | Inr (hr2, ps, tr2) \<Rightarrow>
                 if \<not> o_assert (SUCCEEDED hr2) then Inl (AssertFailed, tr2) else
                 if \<not> o_assert_dbg dbg (ps \<noteq> nullptr) then Inl (AssertDbgFailed, tr2) else
                 Inr (addShaders (Mask setup progIndex) vs ps shd, tr2)))))"

text \<open>\<open>for (int32 progIndex = 0; progIndex < numProgs; progIndex++)\<close>\<close>

function SetupResource_programs ::
  "bool \<Rightarrow> device \<Rightarrow> d3d11ShaderFactory \<Rightarrow> ShaderSetup \<Rightarrow> nat \<Rightarrow> nat \<Rightarrow> shader \<times> event list
     \<Rightarrow> (shader \<times> event list) outcome" where
  "SetupResource_programs dbg dev this setup progIndex numProgs st =
     (if progIndex < numProgs then
        (case SetupResource_program dbg dev this setup progIndex st of
           Inl e \<Rightarrow> Inl e
         | Inr st' \<Rightarrow> SetupResource_programs dbg dev this setup (progIndex + 1) numProgs st')
      else Inr st)"
  by pat_completeness auto
termination
  by (relation "measure (\<lambda>(dbg, dev, this, setup, progIndex, numProgs, st). numProgs - progIndex)") auto

text \<open>
  The body of the loop over the uniform blocks. \<open>cbDesc\<close> is cleared once before the loop;
  the fields the body assigns are assigned anew before every \<open>CreateBuffer\<close>, so the
  descriptor passed is the cleared one with these four fields set. \<open>InvalidIndex\<close> is a
  constant declared outside the source files and is a parameter here.
\<close>

definition SetupResource_uniformBlock ::
  "bool \<Rightarrow> int \<Rightarrow> device \<Rightarrow> d3d11ShaderFactory \<Rightarrow> ShaderSetup \<Rightarrow> nat \<Rightarrow> shader \<times> event list
     \<Rightarrow> (shader \<times> event list) outcome" where
  "SetupResource_uniformBlock dbg InvalidIndex dev this setup i st =
     (let shd = fst st; tr = snd st;
          bindSlotIndex = UniformBlockSlot setup i;
          bindShaderStage = UniformBlockShaderStage setup i
      in
      if bindSlotIndex \<noteq> InvalidIndex then
        if \<not> o_assert_dbg dbg (ByteSizeWithoutTextures setup i > 0) then Inl (AssertDbgFailed, tr) else
        (let cbDesc = clearedDesc\<lparr>
               ByteWidth := toUINT (RoundUp (ByteSizeWithoutTextures setup i) 16),
               Usage := D3D11_USAGE_DEFAULT,
               BindFlags := D3D11_BIND_CONSTANT_BUFFER,
               CPUAccessFlags := 0\<rparr>
         in
         (case deviceCall dev (d3d11Device this) (CreateBuffer cbDesc) tr of
            Inl e \<Rightarrow> Inl e
          | Inr (hr, d3d11ConstantBuffer, tr1) \<Rightarrow>
              if \<not> o_assert (SUCCEEDED hr) then Inl (AssertFailed, tr1) else
              if \<not> o_assert_dbg dbg (d3d11ConstantBuffer \<noteq> nullptr) then Inl (AssertDbgFailed, tr1) else
              Inr (addUniformBlockEntry d3d11ConstantBuffer bindShaderStage bindSlotIndex shd, tr1)))
      else
        Inr (addUniformBlockEntry nullptr bindShaderStage bindSlotIndex shd, tr))"

text \<open>\<open>for (int i = 0; i < setup.NumUniformBlocks(); i++)\<close>\<close>

function SetupResource_uniformBlocks ::
  "bool \<Rightarrow> int \<Rightarrow> device \<Rightarrow> d3d11ShaderFactory \<Rightarrow> ShaderSetup \<Rightarrow> nat \<Rightarrow> shader \<times> event list
     \<Rightarrow> (shader \<times> event list) outcome" where
  "SetupResource_uniformBlocks dbg InvalidIndex dev this setup i st =
     (if i < NumUniformBlocks setup then
        (case SetupResource_uniformBlock dbg InvalidIndex dev this setup i st of
           Inl e \<Rightarrow> Inl e
         | Inr st' \<Rightarrow> SetupResource_uniformBlocks dbg InvalidIndex dev this setup (i + 1) st')
      else Inr st)"
  by pat_completeness auto
termination
  by (relation "measure (\<lambda>(dbg, InvalidIndex, dev, this, setup, i, st). NumUniformBlocks setup - i)") auto

text \<open>
  \<open>SetupResource\<close>. \<open>setup\<close> is the reference to \<open>shd.Setup\<close>, which no step changes.
\<close>

definition SetupResource ::
  "bool \<Rightarrow> int \<Rightarrow> device \<Rightarrow> d3d11ShaderFactory \<Rightarrow> shader \<Rightarrow> event list
     \<Rightarrow> (ResourceState \<times> shader \<times> event list) outcome" where
  "SetupResource dbg InvalidIndex dev this shd tr =
     (if \<not> o_assert_dbg dbg (isValid this) then Inl (AssertDbgFailed, tr) else
      if \<not> o_assert_dbg dbg (d3d11Device this \<noteq> nullptr) then Inl (AssertDbgFailed, tr) else
      (case renderer (pointers this) of
         None \<Rightarrow> Inl (NullPointerDeref, tr)
       | Some r \<Rightarrow>
           (let tr0 = tr @ [InvalidateShaderState];
                setup = shdSetup shd;
                numProgs = NumPrograms setup
            in
            (case SetupResource_programs dbg dev this setup 0 numProgs (shd, tr0) of
               Inl e \<Rightarrow> Inl e
             | Inr st1 \<Rightarrow>
                 (case SetupResource_uniformBlocks dbg InvalidIndex dev this setup 0 st1 of
                    Inl e \<Rightarrow> Inl e
                  | Inr (shd2, tr2) \<Rightarrow>
                      if \<not> o_assert_dbg dbg (getNumUniformBlockEntries shd2 = NumUniformBlocks setup)
                      then Inl (AssertDbgFailed, tr2)
                      else Inr (Valid, shd2, tr2))))))"

text \<open>The two release loops of \<open>DestroyResource\<close>; \<open>Release\<close> on a device object cannot fail.\<close>

function DestroyResource_programs :: "shader \<Rightarrow> nat \<Rightarrow> nat \<Rightarrow> event list \<Rightarrow> event list" where
  "DestroyResource_programs shd progIndex numProgs tr =
     (if progIndex < numProgs then
        let vs = getVertexShaderAt shd progIndex;
            tr1 = (if vs \<noteq> nullptr then tr @ [Release VertexStage vs] else tr);
            ps = getPixelShaderAt shd progIndex;
            tr2 = (if ps \<noteq> nullptr then tr1 @ [Release FragmentStage ps] else tr1)
        in DestroyResource_programs shd (progIndex + 1) numProgs tr2
      else tr)"
  by pat_completeness auto
termination
  by (relation "measure (\<lambda>(shd, progIndex, numProgs, tr). numProgs - progIndex)") auto

function DestroyResource_buffers :: "shader \<Rightarrow> nat \<Rightarrow> nat \<Rightarrow> event list \<Rightarrow> event list" where
  "DestroyResource_buffers shd cbIndex numConstantBuffers tr =
     (if cbIndex < numConstantBuffers then
        let cb = getUniformBlockEntryAt shd cbIndex;
            tr1 = (if cb \<noteq> nullptr then tr @ [Release ConstantBuffer cb] else tr)
        in DestroyResource_buffers shd (cbIndex + 1) numConstantBuffers tr1
      else tr)"
  by pat_completeness auto
termination
  by (relation "measure (\<lambda>(shd, cbIndex, numConstantBuffers, tr). numConstantBuffers - cbIndex)") auto

definition DestroyResource ::
  "bool \<Rightarrow> d3d11ShaderFactory \<Rightarrow> shader \<Rightarrow> event list \<Rightarrow> (shader \<times> event list) outcome" where
  "DestroyResource dbg this shd tr =
     (if \<not> o_assert_dbg dbg (isValid this) then Inl (AssertDbgFailed, tr) else
      if \<not> o_assert_dbg dbg (d3d11Device this \<noteq> nullptr) then Inl (AssertDbgFailed, tr) else
      (case renderer (pointers this) of
         None \<Rightarrow> Inl (NullPointerDeref, tr)
       | Some r \<Rightarrow>
           (let tr0 = tr @ [InvalidateShaderState];
                numProgs = getNumPrograms shd;
                tr1 = DestroyResource_programs shd 0 numProgs tr0;
                numConstantBuffers = getNumUniformBlockEntries shd;
                tr2 = DestroyResource_buffers shd 0 numConstantBuffers tr1
            in Inr (Clear shd, tr2))))"

section \<open>The GPU particles sample (Samples/GPUParticles/GPUParticles.cc)\<close>

text \<open>
  An \<open>int\<close> is a 32-bit two's complement integer: \<open>int32\<close> wraps the result of an
  addition into its range. Division and remainder truncate towards zero, as in C++.
\<close>

definition int32 :: "int \<Rightarrow> int" where
  "int32 x = (x + 2 ^ 31) mod 2 ^ 32 - 2 ^ 31"

definition cdiv :: "int \<Rightarrow> int \<Rightarrow> int" where
  "cdiv a b = sgn a * sgn b * (\<bar>a\<bar> div \<bar>b\<bar>)"

definition cmod :: "int \<Rightarrow> int \<Rightarrow> int" where
  "cmod a b = a - b * cdiv a b"

definition NumParticleBuffers :: int where
  "NumParticleBuffers = 2"

definition NumParticlesEmittedPerFrame :: int where
  "NumParticlesEmittedPerFrame = 100"

definition NumParticlesX :: int where
  "NumParticlesX = 1024"

definition NumParticlesY :: int where
  "NumParticlesY = 1024"

definition MaxNumParticles :: int where
  "MaxNumParticles = NumParticlesX * NumParticlesY"

text \<open>
  The members of \<open>GPUParticlesApp\<close> that \<open>OnRunning\<close> counts with, and the indices it
  computes in a frame. The camera, the draw calls and the frame time are not modelled.
\<close>

record GPUParticlesApp =
  frameCount :: int
  curNumParticles :: int

record frame =
  readIndex :: int
  drawIndex :: int
  scissorHeight :: int

definition newApp :: GPUParticlesApp where
  "newApp = \<lparr>frameCount = 0, curNumParticles = 0\<rparr>"

definition OnRunning :: "GPUParticlesApp \<Rightarrow> GPUParticlesApp \<times> frame" where
  "OnRunning this =
     (let this1 = this\<lparr>frameCount := int32 (frameCount this + 1)\<rparr>;
          this2 = this1\<lparr>curNumParticles :=
                    int32 (curNumParticles this1 + NumParticlesEmittedPerFrame)\<rparr>;
          this3 = (if curNumParticles this2 > MaxNumParticles
                   then this2\<lparr>curNumParticles := MaxNumParticles\<rparr> else this2)
      in (this3,
          \<lparr>readIndex = cmod (int32 (frameCount this3 + 1)) NumParticleBuffers,
           drawIndex = cmod (frameCount this3) NumParticleBuffers,
           scissorHeight = int32 (cdiv (curNumParticles this3) NumParticlesX + 1)\<rparr>))"

text \<open>The application after \<open>n\<close> frames.\<close>

fun frames :: "nat \<Rightarrow> GPUParticlesApp" where
  "frames 0 = newApp"
| "frames (Suc n) = fst (OnRunning (frames n))"

section \<open>Observations on traces and resources\<close>

text \<open>
  A creation request the device answered with success, one it answered with failure, and
  the kinds of trace entries.
\<close>

fun createOk :: "event \<Rightarrow> bool" where
  "createOk (DeviceCreate req hr p) = SUCCEEDED hr"
| "createOk InvalidateShaderState = False"
| "createOk (Release k p) = False"

fun createFailed :: "event \<Rightarrow> bool" where
  "createFailed (DeviceCreate req hr p) = (\<not> SUCCEEDED hr)"
| "createFailed InvalidateShaderState = False"
| "createFailed (Release k p) = False"

fun isRelease :: "event \<Rightarrow> bool" where
  "isRelease (Release k p) = True"
| "isRelease InvalidateShaderState = False"
| "isRelease (DeviceCreate req hr p) = False"

fun isCreate :: "event \<Rightarrow> bool" where
  "isCreate (DeviceCreate req hr p) = True"
| "isCreate InvalidateShaderState = False"
| "isCreate (Release k p) = False"

fun kindOf :: "request \<Rightarrow> objKind" where
  "kindOf (CreateVertexShader p n) = VertexStage"
| "kindOf (CreatePixelShader p n) = FragmentStage"
| "kindOf (CreateBuffer d) = ConstantBuffer"

text \<open>
  The device objects a trace created (the non-null out-pointers of its successful creation
  requests) and the objects it released, each in the order of the calls.
\<close>

fun created :: "event list \<Rightarrow> (objKind \<times> ptr) list" where
  "created [] = []"
| "created (DeviceCreate req hr p # es) =
     (if SUCCEEDED hr \<and> p \<noteq> nullptr then (kindOf req, p) # created es else created es)"
| "created (InvalidateShaderState # es) = created es"
| "created (Release k p # es) = created es"

fun released :: "event list \<Rightarrow> (objKind \<times> ptr) list" where
  "released [] = []"
| "released (Release k p # es) = (k, p) # released es"
| "released (InvalidateShaderState # es) = released es"
| "released (DeviceCreate req hr p # es) = released es"

text \<open>The buffer allocations of a trace: byte width requested and handle answered.\<close>

fun bufferAllocs :: "event list \<Rightarrow> (nat \<times> ptr) list" where
  "bufferAllocs [] = []"
| "bufferAllocs (DeviceCreate (CreateBuffer d) hr p # es) = (ByteWidth d, p) # bufferAllocs es"
| "bufferAllocs (DeviceCreate (CreateVertexShader q n) hr p # es) = bufferAllocs es"
| "bufferAllocs (DeviceCreate (CreatePixelShader q n) hr p # es) = bufferAllocs es"
| "bufferAllocs (InvalidateShaderState # es) = bufferAllocs es"
| "bufferAllocs (Release k p # es) = bufferAllocs es"

text \<open>The non-null device objects a variant and a uniform entry hold.\<close>

definition variantObjs :: "variantEntry \<Rightarrow> (objKind \<times> ptr) list" where
  "variantObjs v =
     (if vertexShader v \<noteq> nullptr then [(VertexStage, vertexShader v)] else []) @
     (if pixelShader v \<noteq> nullptr then [(FragmentStage, pixelShader v)] else [])"

definition bufferObjs :: "uniformEntry \<Rightarrow> (objKind \<times> ptr) list" where
  "bufferObjs e = (if ubBuffer e \<noteq> nullptr then [(ConstantBuffer, ubBuffer e)] else [])"

text \<open>The events a call added to the trace \<open>tr\<close> it started from, \<open>tr'\<close> being the trace after.\<close>

definition newEvents :: "event list \<Rightarrow> event list \<Rightarrow> event list" where
  "newEvents tr tr' = drop (length tr) tr'"

text \<open>
  The contract of the device's creation calls: a call that reports success has stored a
  non-null object. The source states it as \<open>o_assert_dbg(vs)\<close>, \<open>o_assert_dbg(ps)\<close> and
  \<open>o_assert_dbg(d3d11ConstantBuffer)\<close> after each call.
\<close>

definition deviceContract :: "device \<Rightarrow> bool" where
  "deviceContract dev = (\<forall>tr req. SUCCEEDED (fst (dev tr req)) \<longrightarrow> snd (dev tr req) \<noteq> nullptr)"

text \<open>A device every creation call of which succeeds with a non-null object.\<close>

definition cooperative :: "device \<Rightarrow> bool" where
  "cooperative dev = (\<forall>tr req. SUCCEEDED (fst (dev tr req)) \<and> snd (dev tr req) \<noteq> nullptr)"

text \<open>
  The invariants of the data model on the parts of a description: every bytecode pointer
  is non-null, and a uniform block with a real bind slot has a positive byte size.
\<close>

definition programsWellFormed :: "ShaderSetup \<Rightarrow> bool" where
  "programsWellFormed desc = list_all (\<lambda>p. vsPtr p \<noteq> nullptr \<and> psPtr p \<noteq> nullptr) (programs desc)"

definition blocksWellFormed :: "int \<Rightarrow> ShaderSetup \<Rightarrow> bool" where
  "blocksWellFormed InvalidIndex desc =
     list_all (\<lambda>b. if bindSlot b = InvalidIndex then True else 0 < byteSize b) (uniformBlocks desc)"

text \<open>A factory that has been set up with a renderer that has a device.\<close>

definition isSetUp :: "d3d11ShaderFactory \<Rightarrow> bool" where
  "isSetUp this = (isValid this \<and> d3d11Device this \<noteq> nullptr \<and> renderer (pointers this) \<noteq> None)"

text \<open>The buffer size the factory requests for a uniform block.\<close>

definition roundedSize :: "uniformBlock \<Rightarrow> nat" where
  "roundedSize b = toUINT (RoundUp (byteSize b) 16)"

text \<open>
  What the loop over the uniform blocks leaves for a block \<open>b\<close>: an entry \<open>e\<close> with the
  block's stage and slot, whose buffer is null for the sentinel slot; \<open>nonNull\<close> says
  whether a created buffer is known to be non-null. \<open>expectedAllocs\<close> lists, for the
  blocks with a real slot, the rounded size and the entry's buffer.
\<close>

definition entryFor :: "bool \<Rightarrow> int \<Rightarrow> uniformBlock \<Rightarrow> uniformEntry \<Rightarrow> bool" where
  "entryFor nonNull InvalidIndex b e =
     (ubSlot e = bindSlot b \<and> ubStage e = shaderStage b \<and>
      (if bindSlot b = InvalidIndex then ubBuffer e = nullptr
       else if nonNull then ubBuffer e \<noteq> nullptr else True))"

definition expectedAllocs :: "int \<Rightarrow> uniformBlock list \<Rightarrow> uniformEntry list \<Rightarrow> (nat \<times> ptr) list" where
  "expectedAllocs InvalidIndex bs es =
     map (\<lambda>be. (roundedSize (fst be), ubBuffer (snd be)))
       (filter (\<lambda>be. bindSlot (fst be) \<noteq> InvalidIndex) (zip bs es))"

text \<open>
  The creation requests a call made before a fault: all succeeded, except that a failed
  \<open>o_assert\<close> directly follows a request the device rejected.
\<close>

definition faultEvents :: "fault \<Rightarrow> event list \<Rightarrow> bool" where
  "faultEvents flt evs =
     (if flt = AssertFailed
      then evs \<noteq> [] \<and> list_all createOk (butlast evs) \<and> createFailed (last evs)
      else list_all createOk evs)"

subsection \<open>Concrete collaborators and descriptions\<close>

text \<open>
  A device that always succeeds and hands out fresh handles, and one that rejects every
  request with \<open>E_FAIL\<close>.
\<close>

definition okDevice :: device where
  "okDevice tr req = (0, Suc (length tr))"

definition failingDevice :: device where
  "failingDevice tr req = (- 2147467259, nullptr)"

definition readyFactory :: d3d11ShaderFactory where
  "readyFactory = \<lparr>pointers = \<lparr>renderer = Some \<lparr>rendererDevice = 7\<rparr>\<rparr>,
                    d3d11Device = 7, isValid = True\<rparr>"

text \<open>
  The description of the spec's scenario: one program variant with bytecode, a uniform
  block at bind slot 3 with 20 bytes and a texture-only block at the sentinel (here - 1).
\<close>

definition scenarioSetup :: ShaderSetup where
  "scenarioSetup =
     \<lparr>programs = [\<lparr>progMask = 5, vsPtr = 100, vsSize = 64, psPtr = 200, psSize = 48\<rparr>],
      uniformBlocks = [\<lparr>bindSlot = 3, shaderStage = FragmentShader, byteSize = 20\<rparr>,
                       \<lparr>bindSlot = - 1, shaderStage = FragmentShader, byteSize = 0\<rparr>]\<rparr>"

definition scenarioShader :: shader where
  "scenarioShader = \<lparr>shdSetup = scenarioSetup, variants = [], uniformEntries = []\<rparr>"

text \<open>A description with no program variant and one uniform block that needs a buffer.\<close>

definition noProgramsSetup :: ShaderSetup where
  "noProgramsSetup =
     \<lparr>programs = [],
      uniformBlocks = [\<lparr>bindSlot = 3, shaderStage = FragmentShader, byteSize = 20\<rparr>]\<rparr>"

definition noProgramsShader :: shader where
  "noProgramsShader = \<lparr>shdSetup = noProgramsSetup, variants = [], uniformEntries = []\<rparr>"

text \<open>What \<open>SetupResource\<close> makes of the scenario with \<open>okDevice\<close>, starting from an empty trace.\<close>

definition scenarioResource :: shader where
  "scenarioResource =
     \<lparr>shdSetup = scenarioSetup,
      variants = [\<lparr>veMask = 5, vertexShader = 2, pixelShader = 3\<rparr>],
      uniformEntries = [\<lparr>ubBuffer = 4, ubStage = FragmentShader, ubSlot = 3\<rparr>,
                        \<lparr>ubBuffer = nullptr, ubStage = FragmentShader, ubSlot = - 1\<rparr>]\<rparr>"

definition scenarioTrace :: "event list" where
  "scenarioTrace =
     [InvalidateShaderState,
      DeviceCreate (CreateVertexShader 100 64) 0 2,
      DeviceCreate (CreatePixelShader 200 48) 0 3,
      DeviceCreate (CreateBuffer \<lparr>ByteWidth = 32, Usage = 0, BindFlags = 4, CPUAccessFlags = 0,
                                  MiscFlags = 0, StructureByteStride = 0\<rparr>) 0 4]"

text \<open>What \<open>SetupResource\<close> makes of the description without programs.\<close>

definition noProgramsResource :: shader where
  "noProgramsResource =
     \<lparr>shdSetup = noProgramsSetup, variants = [],
      uniformEntries = [\<lparr>ubBuffer = 2, ubStage = FragmentShader, ubSlot = 3\<rparr>]\<rparr>"

definition noProgramsTrace :: "event list" where
  "noProgramsTrace =
     [InvalidateShaderState,
      DeviceCreate (CreateBuffer \<lparr>ByteWidth = 32, Usage = 0, BindFlags = 4, CPUAccessFlags = 0,
                                  MiscFlags = 0, StructureByteStride = 0\<rparr>) 0 2]"

text \<open>The pointers handed to \<open>Setup\<close>: a renderer whose device is at address 7.\<close>

definition somePointers :: gfxPointers where
  "somePointers = \<lparr>renderer = Some \<lparr>rendererDevice = 7\<rparr>\<rparr>"

section \<open>Properties of the shader factory\<close>

subsection \<open>Traces, loop bodies and loops\<close>

declare SetupResource_programs.simps [simp del]
declare SetupResource_uniformBlocks.simps [simp del]
declare DestroyResource_programs.simps [simp del]
declare DestroyResource_buffers.simps [simp del]

lemma created_append: "created (xs @ ys) = created xs @ created ys"
  by (induction xs rule: created.induct) auto

lemma released_append: "released (xs @ ys) = released xs @ released ys"
  by (induction xs rule: released.induct) auto

lemma bufferAllocs_append: "bufferAllocs (xs @ ys) = bufferAllocs xs @ bufferAllocs ys"
  by (induction xs rule: bufferAllocs.induct) auto

lemma released_map_Release: "released (map (\<lambda>(k, p). Release k p) xs) = xs"
  by (induction xs) auto

lemma deviceContract_nonnull:
  "deviceContract dev \<Longrightarrow> dev tr req = (hr, p) \<Longrightarrow> SUCCEEDED hr \<Longrightarrow> p \<noteq> nullptr"
  unfolding deviceContract_def by (metis fst_conv snd_conv)

lemma program_Inr:
  assumes "SetupResource_program dbg dev fac setup i st = Inr st'"
  shows "\<exists>hr vs hr2 ps.
           fst st' = addShaders (Mask setup i) vs ps (fst st) \<and>
           snd st' = snd st @
             [DeviceCreate (CreateVertexShader (vsPtr (programs setup ! i)) (vsSize (programs setup ! i))) hr vs,
              DeviceCreate (CreatePixelShader (psPtr (programs setup ! i)) (psSize (programs setup ! i))) hr2 ps] \<and>
           SUCCEEDED hr \<and> SUCCEEDED hr2 \<and>
           (dbg \<or> deviceContract dev \<longrightarrow> vs \<noteq> nullptr \<and> ps \<noteq> nullptr)"
  using assms
  unfolding SetupResource_program_def deviceCall_def Let_def o_assert_def o_assert_dbg_def
    VertexShaderByteCode_def FragmentShaderByteCode_def
  by (auto split: if_splits prod.splits sum.splits dest: deviceContract_nonnull)


lemma variantObjs_entry:
  "variantObjs \<lparr>veMask = m, vertexShader = vs, pixelShader = ps\<rparr> =
     (if vs \<noteq> nullptr then [(VertexStage, vs)] else []) @
     (if ps \<noteq> nullptr then [(FragmentStage, ps)] else [])"
  by (simp add: variantObjs_def)

lemma programs_Inr:
  assumes "SetupResource_programs dbg dev fac desc i n st = Inr st'"
  shows "\<exists>evs vs.
           snd st' = snd st @ evs \<and> list_all createOk evs \<and>
           fst st' = (fst st)\<lparr>variants := variants (fst st) @ vs\<rparr> \<and>
           map veMask vs = map (Mask desc) [i..<n] \<and>
           concat (map variantObjs vs) = created evs \<and>
           bufferAllocs evs = [] \<and> length evs = 2 * (n - i) \<and>
           (dbg \<or> deviceContract dev \<longrightarrow>
              list_all (\<lambda>v. vertexShader v \<noteq> nullptr \<and> pixelShader v \<noteq> nullptr) vs)"
  using assms
proof (induction dbg dev fac desc i n st arbitrary: st' rule: SetupResource_programs.induct)
  case (1 dbg dev fac desc i n st)
  show ?case
  proof (cases "i < n")
    case False
    with "1.prems" have "st' = st"
      by (simp add: SetupResource_programs.simps)
    then have "snd st' = snd st @ [] \<and> fst st' = (fst st)\<lparr>variants := variants (fst st) @ []\<rparr>"
      by simp
    with False show ?thesis
      by (intro exI [of _ "[]"]) simp
  next
    case True
    with "1.prems" obtain st1 where
      step: "SetupResource_program dbg dev fac desc i st = Inr st1" and
      rest: "SetupResource_programs dbg dev fac desc (i + 1) n st1 = Inr st'"
      by (subst (asm) SetupResource_programs.simps) (auto split: sum.splits)
    from program_Inr [OF step] obtain hr vs hr2 ps where
      s1: "fst st1 = addShaders (Mask desc i) vs ps (fst st)" and
      t1: "snd st1 = snd st @
             [DeviceCreate (CreateVertexShader (vsPtr (programs desc ! i)) (vsSize (programs desc ! i))) hr vs,
              DeviceCreate (CreatePixelShader (psPtr (programs desc ! i)) (psSize (programs desc ! i))) hr2 ps]" and
      ok: "SUCCEEDED hr" "SUCCEEDED hr2" and
      nn: "dbg \<or> deviceContract dev \<longrightarrow> vs \<noteq> nullptr \<and> ps \<noteq> nullptr"
      by blast
    from "1.IH" [OF True step rest] obtain evs vs' where
      t2: "snd st' = snd st1 @ evs" and
      ok2: "list_all createOk evs" and
      s2: "fst st' = (fst st1)\<lparr>variants := variants (fst st1) @ vs'\<rparr>" and
      m2: "map veMask vs' = map (Mask desc) [i + 1..<n]" and
      c2: "concat (map variantObjs vs') = created evs" and
      b2: "bufferAllocs evs = []" and
      n2: "length evs = 2 * (n - (i + 1))" and
      nn2: "dbg \<or> deviceContract dev \<longrightarrow>
              list_all (\<lambda>v. vertexShader v \<noteq> nullptr \<and> pixelShader v \<noteq> nullptr) vs'"
      by blast
    let ?v = "\<lparr>veMask = Mask desc i, vertexShader = vs, pixelShader = ps\<rparr>"
    let ?e = "[DeviceCreate (CreateVertexShader (vsPtr (programs desc ! i)) (vsSize (programs desc ! i))) hr vs,
               DeviceCreate (CreatePixelShader (psPtr (programs desc ! i)) (psSize (programs desc ! i))) hr2 ps]"
    have a: "snd st' = snd st @ (?e @ evs)"
      using t1 t2 by simp
    have b: "list_all createOk (?e @ evs)"
      using ok ok2 by simp
    have c: "fst st' = (fst st)\<lparr>variants := variants (fst st) @ (?v # vs')\<rparr>"
      using s1 s2 by (simp add: addShaders_def)
    have d: "map veMask (?v # vs') = map (Mask desc) [i..<n]"
      using m2 True by (simp add: upt_conv_Cons)
    have e: "concat (map variantObjs (?v # vs')) = created (?e @ evs)"
      using c2 ok by (simp add: variantObjs_entry)
    have f: "bufferAllocs (?e @ evs) = []"
      using b2 by simp
    have h: "length (?e @ evs) = 2 * (n - i)"
      using n2 True by simp
    have g: "dbg \<or> deviceContract dev \<longrightarrow>
              list_all (\<lambda>v. vertexShader v \<noteq> nullptr \<and> pixelShader v \<noteq> nullptr) (?v # vs')"
      using nn nn2 by simp
    from a b c d e f h g show ?thesis
      by blast
  qed
qed


lemma uniformBlock_Inr:
  assumes "SetupResource_uniformBlock dbg II dev fac desc i st = Inr st'"
  shows "\<exists>e evs.
           fst st' = (fst st)\<lparr>uniformEntries := uniformEntries (fst st) @ [e]\<rparr> \<and>
           snd st' = snd st @ evs \<and> list_all createOk evs \<and>
           ubSlot e = bindSlot (uniformBlocks desc ! i) \<and>
           ubStage e = shaderStage (uniformBlocks desc ! i) \<and>
           (if bindSlot (uniformBlocks desc ! i) = II
            then ubBuffer e = nullptr \<and> evs = []
            else bufferAllocs evs = [(roundedSize (uniformBlocks desc ! i), ubBuffer e)] \<and>
                 (if dbg then 0 < byteSize (uniformBlocks desc ! i) else True) \<and>
                 (if dbg \<or> deviceContract dev then ubBuffer e \<noteq> nullptr else True)) \<and>
           created evs = bufferObjs e \<and> length (bufferAllocs evs) = length evs"
proof (cases "bindSlot (uniformBlocks desc ! i) = II")
  case True
  let ?e = "\<lparr>ubBuffer = nullptr, ubStage = shaderStage (uniformBlocks desc ! i),
             ubSlot = bindSlot (uniformBlocks desc ! i)\<rparr>"
  from assms True have "st' = (addUniformBlockEntry nullptr (shaderStage (uniformBlocks desc ! i))
                                 (bindSlot (uniformBlocks desc ! i)) (fst st), snd st)"
    by (simp add: SetupResource_uniformBlock_def Let_def UniformBlockSlot_def
        UniformBlockShaderStage_def)
  then have "fst st' = (fst st)\<lparr>uniformEntries := uniformEntries (fst st) @ [?e]\<rparr>"
    and "snd st' = snd st @ []"
    by (simp_all add: addUniformBlockEntry_def)
  with True show ?thesis
    by (intro exI [of _ ?e] exI [of _ "[]"]) (simp add: bufferObjs_def)
next
  case False
  let ?b = "uniformBlocks desc ! i"
  let ?d = "clearedDesc\<lparr>ByteWidth := toUINT (RoundUp (byteSize ?b) 16),
              Usage := D3D11_USAGE_DEFAULT, BindFlags := D3D11_BIND_CONSTANT_BUFFER,
              CPUAccessFlags := 0\<rparr>"
  from assms False obtain hr cb where
    dv: "dev (snd st) (CreateBuffer ?d) = (hr, cb)" and
    ok: "SUCCEEDED hr" and
    nn: "dbg \<longrightarrow> cb \<noteq> nullptr \<and> 0 < byteSize ?b" and
    res: "st' = (addUniformBlockEntry cb (shaderStage ?b) (bindSlot ?b) (fst st),
                 snd st @ [DeviceCreate (CreateBuffer ?d) hr cb])"
    unfolding SetupResource_uniformBlock_def deviceCall_def Let_def o_assert_def o_assert_dbg_def
      UniformBlockSlot_def UniformBlockShaderStage_def ByteSizeWithoutTextures_def
    by (auto split: if_splits prod.splits sum.splits)
  let ?e = "\<lparr>ubBuffer = cb, ubStage = shaderStage ?b, ubSlot = bindSlot ?b\<rparr>"
  have "deviceContract dev \<Longrightarrow> cb \<noteq> nullptr"
    using dv ok unfolding deviceContract_def by (metis fst_conv snd_conv)
  with nn have nn': "dbg \<or> deviceContract dev \<Longrightarrow> cb \<noteq> nullptr"
    by blast
  have "fst st' = (fst st)\<lparr>uniformEntries := uniformEntries (fst st) @ [?e]\<rparr>"
    and "snd st' = snd st @ [DeviceCreate (CreateBuffer ?d) hr cb]"
    using res by (simp_all add: addUniformBlockEntry_def)
  moreover have "bufferAllocs [DeviceCreate (CreateBuffer ?d) hr cb] = [(roundedSize ?b, cb)]"
    by (simp add: roundedSize_def)
  moreover have "created [DeviceCreate (CreateBuffer ?d) hr cb] = bufferObjs ?e"
    using ok by (simp add: bufferObjs_def)
  ultimately show ?thesis
    using False ok nn nn'
    by (intro exI [of _ ?e] exI [of _ "[DeviceCreate (CreateBuffer ?d) hr cb]"]) auto
qed


lemma uniformBlocks_Inr:
  assumes "SetupResource_uniformBlocks dbg II dev fac desc i st = Inr st'"
  shows "\<exists>evs es.
           snd st' = snd st @ evs \<and> list_all createOk evs \<and>
           fst st' = (fst st)\<lparr>uniformEntries := uniformEntries (fst st) @ es\<rparr> \<and>
           list_all2 (entryFor (dbg \<or> deviceContract dev) II) (drop i (uniformBlocks desc)) es \<and>
           created evs = concat (map bufferObjs es) \<and>
           bufferAllocs evs = expectedAllocs II (drop i (uniformBlocks desc)) es \<and>
           length (bufferAllocs evs) = length evs"
  using assms
proof (induction dbg II dev fac desc i st arbitrary: st' rule: SetupResource_uniformBlocks.induct)
  case (1 dbg II dev fac desc i st)
  show ?case
  proof (cases "i < NumUniformBlocks desc")
    case False
    with "1.prems" have "st' = st"
      by (simp add: SetupResource_uniformBlocks.simps)
    then have "snd st' = snd st @ [] \<and> fst st' = (fst st)\<lparr>uniformEntries := uniformEntries (fst st) @ []\<rparr>"
      by simp
    with False show ?thesis
      by (intro exI [of _ "[]"]) (simp add: NumUniformBlocks_def expectedAllocs_def)
  next
    case True
    with "1.prems" obtain st1 where
      step: "SetupResource_uniformBlock dbg II dev fac desc i st = Inr st1" and
      rest: "SetupResource_uniformBlocks dbg II dev fac desc (i + 1) st1 = Inr st'"
      by (subst (asm) SetupResource_uniformBlocks.simps) (auto split: sum.splits)
    let ?b = "uniformBlocks desc ! i"
    from uniformBlock_Inr [OF step] obtain e evs1 where
      s1: "fst st1 = (fst st)\<lparr>uniformEntries := uniformEntries (fst st) @ [e]\<rparr>" and
      t1: "snd st1 = snd st @ evs1" and
      ok1: "list_all createOk evs1" and
      sl: "ubSlot e = bindSlot ?b" and
      sg: "ubStage e = shaderStage ?b" and
      bf: "if bindSlot ?b = II
           then ubBuffer e = nullptr \<and> evs1 = []
           else bufferAllocs evs1 = [(roundedSize ?b, ubBuffer e)] \<and>
                (if dbg then 0 < byteSize ?b else True) \<and>
                (if dbg \<or> deviceContract dev then ubBuffer e \<noteq> nullptr else True)" and
      c1: "created evs1 = bufferObjs e" and
      n1: "length (bufferAllocs evs1) = length evs1"
      by blast
    from "1.IH" [OF True step rest] obtain evs es where
      t2: "snd st' = snd st1 @ evs" and
      ok2: "list_all createOk evs" and
      s2: "fst st' = (fst st1)\<lparr>uniformEntries := uniformEntries (fst st1) @ es\<rparr>" and
      l2: "list_all2 (entryFor (dbg \<or> deviceContract dev) II) (drop (i + 1) (uniformBlocks desc)) es" and
      c2: "created evs = concat (map bufferObjs es)" and
      b2: "bufferAllocs evs = expectedAllocs II (drop (i + 1) (uniformBlocks desc)) es" and
      n2: "length (bufferAllocs evs) = length evs"
      by blast
    have dr: "drop i (uniformBlocks desc) = ?b # drop (i + 1) (uniformBlocks desc)"
      using True by (simp add: NumUniformBlocks_def Cons_nth_drop_Suc)
    have ef: "entryFor (dbg \<or> deviceContract dev) II ?b e"
      using sl sg bf by (auto simp: entryFor_def split: if_splits)
    have al: "bufferAllocs evs1 = expectedAllocs II [?b] [e]"
      using bf by (auto simp: expectedAllocs_def split: if_splits)
    have a: "snd st' = snd st @ (evs1 @ evs)"
      using t1 t2 by simp
    have b: "list_all createOk (evs1 @ evs)"
      using ok1 ok2 by simp
    have c: "fst st' = (fst st)\<lparr>uniformEntries := uniformEntries (fst st) @ (e # es)\<rparr>"
      using s1 s2 by simp
    have d: "list_all2 (entryFor (dbg \<or> deviceContract dev) II) (drop i (uniformBlocks desc)) (e # es)"
      using ef l2 by (simp add: dr)
    have f: "created (evs1 @ evs) = concat (map bufferObjs (e # es))"
      using c1 c2 by (simp add: created_append)
    have g: "bufferAllocs (evs1 @ evs) = expectedAllocs II (drop i (uniformBlocks desc)) (e # es)"
      using al b2 by (simp add: bufferAllocs_append dr expectedAllocs_def)
    have h: "length (bufferAllocs (evs1 @ evs)) = length (evs1 @ evs)"
      using n1 n2 by (simp add: bufferAllocs_append)
    from a b c d f g h show ?thesis
      by blast
  qed
qed


lemma map_Mask_upt: "map (Mask desc) [0..<length (programs desc)] = map progMask (programs desc)"
proof -
  have "map (Mask desc) [0..<length (programs desc)] =
        map progMask (map (nth (programs desc)) [0..<length (programs desc)])"
    by (simp add: Mask_def)
  then show ?thesis
    by (simp only: map_nth)
qed

lemma SetupResource_Inr:
  assumes "SetupResource dbg II dev fac shd tr = Inr (st, shd', tr')"
  shows "st = Valid \<and>
         (if dbg then isValid fac \<and> d3d11Device fac \<noteq> nullptr else True) \<and>
         renderer (pointers fac) \<noteq> None \<and>
         (\<exists>evsP evsU vs es.
            tr' = tr @ InvalidateShaderState # evsP @ evsU \<and>
            list_all createOk evsP \<and> list_all createOk evsU \<and>
            shd' = shd\<lparr>variants := variants shd @ vs, uniformEntries := uniformEntries shd @ es\<rparr> \<and>
            map veMask vs = map progMask (programs (shdSetup shd)) \<and>
            concat (map variantObjs vs) = created evsP \<and>
            bufferAllocs evsP = [] \<and>
            length evsP = 2 * length (programs (shdSetup shd)) \<and>
            (dbg \<or> deviceContract dev \<longrightarrow>
               list_all (\<lambda>v. vertexShader v \<noteq> nullptr \<and> pixelShader v \<noteq> nullptr) vs) \<and>
            list_all2 (entryFor (dbg \<or> deviceContract dev) II) (uniformBlocks (shdSetup shd)) es \<and>
            created evsU = concat (map bufferObjs es) \<and>
            bufferAllocs evsU = expectedAllocs II (uniformBlocks (shdSetup shd)) es \<and>
            length (bufferAllocs evsU) = length evsU)"
proof -
  let ?desc = "shdSetup shd"
  let ?tr0 = "tr @ [InvalidateShaderState]"
  from assms have pre: "if dbg then isValid fac \<and> d3d11Device fac \<noteq> nullptr else True"
    and rn: "renderer (pointers fac) \<noteq> None"
    unfolding SetupResource_def o_assert_dbg_def
    by (auto split: if_splits option.splits)
  from assms obtain st1 shd2 tr2 where
    p: "SetupResource_programs dbg dev fac ?desc 0 (NumPrograms ?desc) (shd, ?tr0) = Inr st1" and
    u: "SetupResource_uniformBlocks dbg II dev fac ?desc 0 st1 = Inr (shd2, tr2)" and
    r: "st = Valid" "shd' = shd2" "tr' = tr2"
    unfolding SetupResource_def Let_def
    by (auto split: if_splits option.splits sum.splits prod.splits)
  from programs_Inr [OF p] obtain evsP vs where
    tP: "snd st1 = ?tr0 @ evsP" and okP: "list_all createOk evsP" and
    sP: "fst st1 = shd\<lparr>variants := variants shd @ vs\<rparr>" and
    mP: "map veMask vs = map (Mask ?desc) [0..<NumPrograms ?desc]" and
    cP: "concat (map variantObjs vs) = created evsP" and
    bP: "bufferAllocs evsP = []" and
    lP: "length evsP = 2 * (NumPrograms ?desc - 0)" and
    nP: "dbg \<or> deviceContract dev \<longrightarrow>
           list_all (\<lambda>v. vertexShader v \<noteq> nullptr \<and> pixelShader v \<noteq> nullptr) vs"
    by auto
  from uniformBlocks_Inr [OF u] obtain evsU es where
    tU: "tr2 = snd st1 @ evsU" and okU: "list_all createOk evsU" and
    sU: "shd2 = (fst st1)\<lparr>uniformEntries := uniformEntries (fst st1) @ es\<rparr>" and
    lU: "list_all2 (entryFor (dbg \<or> deviceContract dev) II) (uniformBlocks ?desc) es" and
    cU: "created evsU = concat (map bufferObjs es)" and
    bU: "bufferAllocs evsU = expectedAllocs II (uniformBlocks ?desc) es" and
    nU: "length (bufferAllocs evsU) = length evsU"
    by auto
  have lP': "length evsP = 2 * length (programs ?desc)"
    using lP by (simp add: NumPrograms_def)
  have a: "tr' = tr @ InvalidateShaderState # evsP @ evsU"
    using r tP tU by simp
  have b: "shd' = shd\<lparr>variants := variants shd @ vs, uniformEntries := uniformEntries shd @ es\<rparr>"
    using r sP sU by simp
  have c: "map veMask vs = map progMask (programs ?desc)"
    using mP by (simp add: NumPrograms_def map_Mask_upt)
  from r(1) pre rn a okP okU b c cP bP lP' nP lU cU bU nU show ?thesis
    by blast
qed

lemma DestroyResource_programs_eq:
  "DestroyResource_programs shd i (length (variants shd)) tr =
     tr @ map (\<lambda>(k, p). Release k p) (concat (map variantObjs (drop i (variants shd))))"
proof (induction "length (variants shd) - i" arbitrary: i tr)
  case 0
  then show ?case
    by (subst DestroyResource_programs.simps) simp
next
  case (Suc d)
  then have lt: "i < length (variants shd)" and d: "d = length (variants shd) - Suc i"
    by simp_all
  have dr: "drop i (variants shd) = variants shd ! i # drop (Suc i) (variants shd)"
    using lt by (simp add: Cons_nth_drop_Suc)
  note IH = Suc.hyps(1) [OF d]
  show ?case
    using lt
    by (subst DestroyResource_programs.simps)
      (simp add: IH dr Let_def variantObjs_def getVertexShaderAt_def getPixelShaderAt_def)
qed

lemma DestroyResource_buffers_eq:
  "DestroyResource_buffers shd i (length (uniformEntries shd)) tr =
     tr @ map (\<lambda>(k, p). Release k p) (concat (map bufferObjs (drop i (uniformEntries shd))))"
proof (induction "length (uniformEntries shd) - i" arbitrary: i tr)
  case 0
  then show ?case
    by (subst DestroyResource_buffers.simps) simp
next
  case (Suc d)
  then have lt: "i < length (uniformEntries shd)" and d: "d = length (uniformEntries shd) - Suc i"
    by simp_all
  have dr: "drop i (uniformEntries shd) = uniformEntries shd ! i # drop (Suc i) (uniformEntries shd)"
    using lt by (simp add: Cons_nth_drop_Suc)
  note IH = Suc.hyps(1) [OF d]
  show ?case
    using lt
    by (subst DestroyResource_buffers.simps)
      (simp add: IH dr Let_def bufferObjs_def getUniformBlockEntryAt_def)
qed

lemma DestroyResource_eq:
  assumes "if dbg then isValid fac \<and> d3d11Device fac \<noteq> nullptr else True"
    and "renderer (pointers fac) \<noteq> None"
  shows "DestroyResource dbg fac shd tr =
           Inr (Clear shd,
                tr @ InvalidateShaderState #
                  map (\<lambda>(k, p). Release k p)
                    (concat (map variantObjs (variants shd)) @
                     concat (map bufferObjs (uniformEntries shd))))"
  using assms
  unfolding DestroyResource_def Let_def o_assert_dbg_def getNumPrograms_def
    getNumUniformBlockEntries_def
  by (auto simp: DestroyResource_programs_eq DestroyResource_buffers_eq split: if_splits)


lemma faultEvents_prepend:
  assumes "list_all createOk xs" "faultEvents flt ys"
  shows "faultEvents flt (xs @ ys)"
  using assms by (auto simp: faultEvents_def butlast_append split: if_splits)

lemma program_Inl:
  assumes "SetupResource_program dbg dev fac desc i st = Inl (flt, tr')"
  shows "\<exists>evs. tr' = snd st @ evs \<and> faultEvents flt evs"
proof -
  let ?rv = "CreateVertexShader (vsPtr (programs desc ! i)) (vsSize (programs desc ! i))"
  let ?rp = "CreatePixelShader (psPtr (programs desc ! i)) (psSize (programs desc ! i))"
  obtain hr vs where dv: "dev (snd st) ?rv = (hr, vs)"
    by (cases "dev (snd st) ?rv")
  obtain hr2 ps where dp: "dev (snd st @ [DeviceCreate ?rv hr vs]) ?rp = (hr2, ps)"
    by (cases "dev (snd st @ [DeviceCreate ?rv hr vs]) ?rp")
  from assms dv dp have
    "(tr' = snd st @ [] \<and> flt \<noteq> AssertFailed) \<or>
     (tr' = snd st @ [DeviceCreate ?rv hr vs] \<and> flt = AssertFailed \<and> \<not> SUCCEEDED hr) \<or>
     (tr' = snd st @ [DeviceCreate ?rv hr vs] \<and> flt \<noteq> AssertFailed \<and> SUCCEEDED hr) \<or>
     (tr' = snd st @ [DeviceCreate ?rv hr vs, DeviceCreate ?rp hr2 ps] \<and> flt = AssertFailed \<and>
        SUCCEEDED hr \<and> \<not> SUCCEEDED hr2) \<or>
     (tr' = snd st @ [DeviceCreate ?rv hr vs, DeviceCreate ?rp hr2 ps] \<and> flt \<noteq> AssertFailed \<and>
        SUCCEEDED hr \<and> SUCCEEDED hr2)"
    unfolding SetupResource_program_def deviceCall_def Let_def o_assert_def o_assert_dbg_def
      VertexShaderByteCode_def FragmentShaderByteCode_def
    by (auto split: if_splits)
  then show ?thesis
    unfolding faultEvents_def by (elim disjE conjE) (rule exI, rule conjI, assumption, simp)+
qed


lemma program_Inr_trace:
  assumes "SetupResource_program dbg dev fac desc i st = Inr st1"
  shows "\<exists>evs. snd st1 = snd st @ evs \<and> list_all createOk evs"
proof -
  from program_Inr [OF assms] obtain e1 e2 where
    "snd st1 = snd st @ [e1, e2]" "createOk e1" "createOk e2"
    by (metis createOk.simps(1))
  then have "snd st1 = snd st @ [e1, e2] \<and> list_all createOk [e1, e2]"
    by simp
  then show ?thesis ..
qed

lemma uniformBlock_Inr_trace:
  assumes "SetupResource_uniformBlock dbg II dev fac desc i st = Inr st1"
  shows "\<exists>evs. snd st1 = snd st @ evs \<and> list_all createOk evs"
  using uniformBlock_Inr [OF assms] by blast

lemma programs_Inl:
  assumes "SetupResource_programs dbg dev fac desc i n st = Inl (flt, tr')"
  shows "\<exists>evs. tr' = snd st @ evs \<and> faultEvents flt evs"
  using assms
proof (induction dbg dev fac desc i n st rule: SetupResource_programs.induct)
  case (1 dbg dev fac desc i n st)
  from "1.prems" have lt: "i < n"
    by (subst (asm) SetupResource_programs.simps) (simp split: if_splits)
  show ?case
  proof (cases "SetupResource_program dbg dev fac desc i st")
    case (Inl e)
    with "1.prems" lt have "SetupResource_program dbg dev fac desc i st = Inl (flt, tr')"
      by (subst (asm) SetupResource_programs.simps) simp
    then show ?thesis
      by (rule program_Inl)
  next
    case (Inr st1)
    with "1.prems" lt have rest: "SetupResource_programs dbg dev fac desc (i + 1) n st1 = Inl (flt, tr')"
      by (subst (asm) SetupResource_programs.simps) simp
    from "1.IH" [OF lt Inr rest] obtain evs where
      t2: "tr' = snd st1 @ evs" and f2: "faultEvents flt evs"
      by blast
    from program_Inr_trace [OF Inr] obtain evs1 where
      t1: "snd st1 = snd st @ evs1" and ok1: "list_all createOk evs1"
      by blast
    have "tr' = snd st @ (evs1 @ evs)"
      using t1 t2 by simp
    moreover have "faultEvents flt (evs1 @ evs)"
      using ok1 f2 by (rule faultEvents_prepend)
    ultimately show ?thesis
      by blast
  qed
qed

lemma uniformBlock_Inl:
  assumes "SetupResource_uniformBlock dbg II dev fac desc i st = Inl (flt, tr')"
  shows "\<exists>evs. tr' = snd st @ evs \<and> faultEvents flt evs"
proof -
  let ?d = "clearedDesc\<lparr>ByteWidth := toUINT (RoundUp (byteSize (uniformBlocks desc ! i)) 16),
              Usage := D3D11_USAGE_DEFAULT, BindFlags := D3D11_BIND_CONSTANT_BUFFER,
              CPUAccessFlags := 0\<rparr>"
  obtain hr cb where dv: "dev (snd st) (CreateBuffer ?d) = (hr, cb)"
    by (cases "dev (snd st) (CreateBuffer ?d)")
  from assms dv have
    "(tr' = snd st @ [] \<and> flt \<noteq> AssertFailed) \<or>
     (tr' = snd st @ [DeviceCreate (CreateBuffer ?d) hr cb] \<and> flt = AssertFailed \<and> \<not> SUCCEEDED hr) \<or>
     (tr' = snd st @ [DeviceCreate (CreateBuffer ?d) hr cb] \<and> flt \<noteq> AssertFailed \<and> SUCCEEDED hr)"
    unfolding SetupResource_uniformBlock_def deviceCall_def Let_def o_assert_def o_assert_dbg_def
      UniformBlockSlot_def UniformBlockShaderStage_def ByteSizeWithoutTextures_def
    by (auto split: if_splits)
  then show ?thesis
    unfolding faultEvents_def by (elim disjE conjE) (rule exI, rule conjI, assumption, simp)+
qed

lemma uniformBlocks_Inl:
  assumes "SetupResource_uniformBlocks dbg II dev fac desc i st = Inl (flt, tr')"
  shows "\<exists>evs. tr' = snd st @ evs \<and> faultEvents flt evs"
  using assms
proof (induction dbg II dev fac desc i st rule: SetupResource_uniformBlocks.induct)
  case (1 dbg II dev fac desc i st)
  from "1.prems" have lt: "i < NumUniformBlocks desc"
    by (subst (asm) SetupResource_uniformBlocks.simps) (simp split: if_splits)
  show ?case
  proof (cases "SetupResource_uniformBlock dbg II dev fac desc i st")
    case (Inl e)
    with "1.prems" lt have "SetupResource_uniformBlock dbg II dev fac desc i st = Inl (flt, tr')"
      by (subst (asm) SetupResource_uniformBlocks.simps) simp
    then show ?thesis
      by (rule uniformBlock_Inl)
  next
    case (Inr st1)
    with "1.prems" lt have rest:
      "SetupResource_uniformBlocks dbg II dev fac desc (i + 1) st1 = Inl (flt, tr')"
      by (subst (asm) SetupResource_uniformBlocks.simps) simp
    from "1.IH" [OF lt Inr rest] obtain evs where
      t2: "tr' = snd st1 @ evs" and f2: "faultEvents flt evs"
      by blast
    from uniformBlock_Inr_trace [OF Inr] obtain evs1 where
      t1: "snd st1 = snd st @ evs1" and ok1: "list_all createOk evs1"
      by blast
    have "tr' = snd st @ (evs1 @ evs)"
      using t1 t2 by simp
    moreover have "faultEvents flt (evs1 @ evs)"
      using ok1 f2 by (rule faultEvents_prepend)
    ultimately show ?thesis
      by blast
  qed
qed

lemma uniformEntries_length:
  assumes "SetupResource_uniformBlocks dbg II dev fac desc 0 st = Inr st'"
  shows "length (uniformEntries (fst st')) = length (uniformEntries (fst st)) + NumUniformBlocks desc"
proof -
  from uniformBlocks_Inr [OF assms] obtain es where
    "fst st' = (fst st)\<lparr>uniformEntries := uniformEntries (fst st) @ es\<rparr>"
    "list_all2 (entryFor (dbg \<or> deviceContract dev) II) (uniformBlocks desc) es"
    by auto
  then show ?thesis
    by (auto simp: NumUniformBlocks_def dest: list_all2_lengthD)
qed

lemma SetupResource_Inl:
  assumes "SetupResource dbg II dev fac shd tr = Inl (flt, tr')"
  shows "(tr' = tr \<and> flt \<noteq> AssertFailed) \<or>
         (\<exists>evs. tr' = tr @ InvalidateShaderState # evs \<and>
                (faultEvents flt evs \<or> (list_all createOk evs \<and> flt = AssertDbgFailed)))"
proof -
  let ?desc = "shdSetup shd"
  let ?tr0 = "tr @ [InvalidateShaderState]"
  let ?P = "SetupResource_programs dbg dev fac ?desc 0 (NumPrograms ?desc) (shd, ?tr0)"
  show ?thesis
  proof (cases "tr' = tr \<and> flt \<noteq> AssertFailed")
    case True
    then show ?thesis ..
  next
    case False
    with assms have run: "(case ?P of
            Inl e \<Rightarrow> Inl e
          | Inr st1 \<Rightarrow>
              (case SetupResource_uniformBlocks dbg II dev fac ?desc 0 st1 of
                 Inl e \<Rightarrow> Inl e
               | Inr (shd2, tr2) \<Rightarrow>
                   if \<not> o_assert_dbg dbg (getNumUniformBlockEntries shd2 = NumUniformBlocks ?desc)
                   then Inl (AssertDbgFailed, tr2)
                   else Inr (Valid, shd2, tr2))) = Inl (flt, tr')"
      unfolding SetupResource_def Let_def
      by (auto split: if_splits option.splits)
    show ?thesis
    proof (cases ?P)
      case (Inl e)
      with run have "?P = Inl (flt, tr')"
        by simp
      from programs_Inl [OF this] obtain evs where
        "tr' = ?tr0 @ evs" "faultEvents flt evs"
        by auto
      then have "tr' = tr @ InvalidateShaderState # evs \<and>
                 (faultEvents flt evs \<or> (list_all createOk evs \<and> flt = AssertDbgFailed))"
        by simp
      then show ?thesis
        by blast
    next
      case (Inr st1)
      from programs_Inr [OF Inr] obtain evsP where
        tP: "snd st1 = ?tr0 @ evsP" and okP: "list_all createOk evsP"
        by auto
      show ?thesis
      proof (cases "SetupResource_uniformBlocks dbg II dev fac ?desc 0 st1")
        case (Inl e)
        with run Inr have "SetupResource_uniformBlocks dbg II dev fac ?desc 0 st1 = Inl (flt, tr')"
          by simp
        from uniformBlocks_Inl [OF this] obtain evs where
          t: "tr' = snd st1 @ evs" and f: "faultEvents flt evs"
          by auto
        have "tr' = tr @ InvalidateShaderState # (evsP @ evs)"
          using t tP by simp
        moreover have "faultEvents flt (evsP @ evs)"
          using okP f by (rule faultEvents_prepend)
        ultimately show ?thesis
          by blast
      next
        case (Inr st2)
        from uniformBlocks_Inr [OF Inr] obtain evsU where
          tU: "snd st2 = snd st1 @ evsU" and okU: "list_all createOk evsU"
          by auto
        from run \<open>?P = Inr st1\<close> Inr have "flt = AssertDbgFailed" "tr' = snd st2"
          by (auto split: if_splits prod.splits)
        then have "tr' = tr @ InvalidateShaderState # (evsP @ evsU) \<and>
                   list_all createOk (evsP @ evsU) \<and> flt = AssertDbgFailed"
          using tP tU okP okU by simp
        then show ?thesis
          by blast
      qed
    qed
  qed
qed

subsection \<open>Runs without a fault\<close>

lemma uniformBlock_returns:
  assumes "cooperative dev" "d3d11Device fac \<noteq> nullptr" "i < length (uniformBlocks desc)"
    and "blocksWellFormed II desc"
  shows "\<exists>st'. SetupResource_uniformBlock dbg II dev fac desc i st = Inr st'"
proof -
  let ?b = "uniformBlocks desc ! i"
  let ?d = "clearedDesc\<lparr>ByteWidth := toUINT (RoundUp (byteSize ?b) 16),
              Usage := D3D11_USAGE_DEFAULT, BindFlags := D3D11_BIND_CONSTANT_BUFFER,
              CPUAccessFlags := 0\<rparr>"
  obtain hr cb where dv: "dev (snd st) (CreateBuffer ?d) = (hr, cb)"
    by (cases "dev (snd st) (CreateBuffer ?d)")
  from assms(1) dv have ok: "SUCCEEDED hr" "cb \<noteq> nullptr"
    unfolding cooperative_def by (metis fst_conv, metis snd_conv)
  from assms(3,4) have wf: "bindSlot ?b \<noteq> II \<Longrightarrow> 0 < byteSize ?b"
    by (auto simp: blocksWellFormed_def list_all_length split: if_splits)
  show ?thesis
    using assms(2) dv ok wf
    unfolding SetupResource_uniformBlock_def deviceCall_def Let_def o_assert_def o_assert_dbg_def
      UniformBlockSlot_def UniformBlockShaderStage_def ByteSizeWithoutTextures_def
    by auto
qed

lemma uniformBlocks_returns:
  assumes "cooperative dev" "d3d11Device fac \<noteq> nullptr" "blocksWellFormed II desc"
  shows "\<exists>st'. SetupResource_uniformBlocks dbg II dev fac desc i st = Inr st'"
proof (induction "NumUniformBlocks desc - i" arbitrary: i st)
  case 0
  then show ?case
    by (subst SetupResource_uniformBlocks.simps) simp
next
  case (Suc d)
  then have lt: "i < NumUniformBlocks desc" and d: "d = NumUniformBlocks desc - (i + 1)"
    by simp_all
  from lt have "i < length (uniformBlocks desc)"
    by (simp add: NumUniformBlocks_def)
  from uniformBlock_returns [OF assms(1,2) this assms(3)] obtain st1 where
    s: "SetupResource_uniformBlock dbg II dev fac desc i st = Inr st1"
    by blast
  from Suc.hyps(1) [OF d] obtain st' where
    "SetupResource_uniformBlocks dbg II dev fac desc (i + 1) st1 = Inr st'"
    by blast
  with lt s show ?case
    by (subst SetupResource_uniformBlocks.simps) simp
qed

lemma program_returns:
  assumes "cooperative dev" "d3d11Device fac \<noteq> nullptr" "i < length (programs desc)"
    and "programsWellFormed desc"
  shows "\<exists>st'. SetupResource_program dbg dev fac desc i st = Inr st'"
proof -
  let ?rv = "CreateVertexShader (vsPtr (programs desc ! i)) (vsSize (programs desc ! i))"
  let ?rp = "CreatePixelShader (psPtr (programs desc ! i)) (psSize (programs desc ! i))"
  obtain hr vs where dv: "dev (snd st) ?rv = (hr, vs)"
    by (cases "dev (snd st) ?rv")
  obtain hr2 ps where dp: "dev (snd st @ [DeviceCreate ?rv hr vs]) ?rp = (hr2, ps)"
    by (cases "dev (snd st @ [DeviceCreate ?rv hr vs]) ?rp")
  from assms(1) dv have ok: "SUCCEEDED hr" "vs \<noteq> nullptr"
    unfolding cooperative_def by (metis fst_conv, metis snd_conv)
  from assms(1) dp have ok2: "SUCCEEDED hr2" "ps \<noteq> nullptr"
    unfolding cooperative_def by (metis fst_conv, metis snd_conv)
  from assms(3,4) have wf: "vsPtr (programs desc ! i) \<noteq> nullptr" "psPtr (programs desc ! i) \<noteq> nullptr"
    by (simp_all add: programsWellFormed_def list_all_length)
  show ?thesis
    using assms(2) dv dp ok ok2 wf
    unfolding SetupResource_program_def deviceCall_def Let_def o_assert_def o_assert_dbg_def
      VertexShaderByteCode_def FragmentShaderByteCode_def
    by auto
qed

lemma programs_returns:
  assumes "cooperative dev" "d3d11Device fac \<noteq> nullptr" "programsWellFormed desc"
    and "n \<le> length (programs desc)"
  shows "\<exists>st'. SetupResource_programs dbg dev fac desc i n st = Inr st'"
proof (induction "n - i" arbitrary: i st)
  case 0
  then show ?case
    by (subst SetupResource_programs.simps) simp
next
  case (Suc d)
  then have lt: "i < n" and d: "d = n - (i + 1)"
    by simp_all
  from lt assms(4) have "i < length (programs desc)"
    by simp
  from program_returns [OF assms(1,2) this assms(3)] obtain st1 where
    s: "SetupResource_program dbg dev fac desc i st = Inr st1"
    by blast
  from Suc.hyps(1) [OF d] obtain st' where
    "SetupResource_programs dbg dev fac desc (i + 1) n st1 = Inr st'"
    by blast
  with lt s show ?case
    by (subst SetupResource_programs.simps) simp
qed

lemma SetupResource_returns:
  assumes "cooperative dev" "isSetUp fac" "Empty shd"
    and "programsWellFormed (shdSetup shd)" "blocksWellFormed II (shdSetup shd)"
  shows "\<exists>shd' tr'. SetupResource dbg II dev fac shd tr = Inr (Valid, shd', tr')"
proof -
  let ?desc = "shdSetup shd"
  let ?tr0 = "tr @ [InvalidateShaderState]"
  from assms(2) have v: "isValid fac" and d: "d3d11Device fac \<noteq> nullptr"
    and r: "renderer (pointers fac) \<noteq> None"
    by (simp_all add: isSetUp_def)
  have "NumPrograms ?desc \<le> length (programs ?desc)"
    by (simp add: NumPrograms_def)
  from programs_returns [OF assms(1) d assms(4) this] obtain st1 where
    p: "SetupResource_programs dbg dev fac ?desc 0 (NumPrograms ?desc) (shd, ?tr0) = Inr st1"
    by blast
  from uniformBlocks_returns [OF assms(1) d assms(5)] obtain st2 where
    u: "SetupResource_uniformBlocks dbg II dev fac ?desc 0 st1 = Inr st2"
    by blast
  from programs_Inr [OF p] assms(3) have "uniformEntries (fst st1) = []"
    by (auto simp: Empty_def)
  with uniformEntries_length [OF u] have
    n: "getNumUniformBlockEntries (fst st2) = NumUniformBlocks ?desc"
    by (simp add: getNumUniformBlockEntries_def)
  from v d r p u n have "SetupResource dbg II dev fac shd tr = Inr (Valid, fst st2, snd st2)"
    unfolding SetupResource_def Let_def o_assert_dbg_def
    by (auto split: prod.splits)
  then show ?thesis
    by blast
qed

subsection \<open>Evaluation of the scenario\<close>

lemmas model_defs =
  SetupResource_def SetupResource_program_def SetupResource_uniformBlock_def
  SetupResource_programs.simps SetupResource_uniformBlocks.simps
  DestroyResource_def DestroyResource_programs.simps DestroyResource_buffers.simps
  deviceCall_def o_assert_def o_assert_dbg_def SUCCEEDED_def
  NumPrograms_def VertexShaderByteCode_def FragmentShaderByteCode_def Mask_def
  NumUniformBlocks_def UniformBlockSlot_def UniformBlockShaderStage_def ByteSizeWithoutTextures_def
  addShaders_def addUniformBlockEntry_def getNumPrograms_def getVertexShaderAt_def
  getPixelShaderAt_def getNumUniformBlockEntries_def getUniformBlockEntryAt_def Clear_def
  RoundUp_def toUINT_def clearedDesc_def D3D11_USAGE_DEFAULT_def D3D11_BIND_CONSTANT_BUFFER_def
  Let_def

lemma scenario_run:
  "SetupResource True (- 1) okDevice readyFactory scenarioShader [] =
     Inr (Valid, scenarioResource, scenarioTrace)"
  by (simp add: model_defs okDevice_def readyFactory_def scenarioShader_def scenarioSetup_def
      scenarioResource_def scenarioTrace_def)

lemma scenario_Empty: "Empty scenarioShader"
  by (simp add: Empty_def scenarioShader_def)

lemma entryFor_maps:
  assumes "list_all2 (entryFor nn II) bs es"
  shows "map ubSlot es = map bindSlot bs \<and> map ubStage es = map shaderStage bs"
  using assms by (induction bs es rule: list_all2_induct) (simp_all add: entryFor_def)

subsection \<open>Creation\<close>

text \<open>
  C1: for a resource that was empty, whenever \<open>SetupResource\<close> returns, the resource holds
  one variant per program of the description and one uniform entry per uniform block, in
  the order of the description: the variants carry the masks of the programs, the uniform
  entries the slots and stages of the blocks, and the two counts agree with the
  description's (with a debug build, or a device that honours its contract, every variant
  is a pair of non-null stage objects). And it does return, with \<open>ResourceState::Valid\<close>,
  when the factory is set up, the bytecode pointers and the byte sizes satisfy the data
  model's invariant and the device's creation calls succeed.
\<close>

theorem SetupResource_entries:
  assumes "Empty shd"
  shows "(\<forall>st shd' tr'.
            SetupResource dbg InvalidIndex dev fac shd tr = Inr (st, shd', tr') \<longrightarrow>
              length (variants shd') = length (programs (shdSetup shd)) \<and>
              length (uniformEntries shd') = length (uniformBlocks (shdSetup shd)) \<and>
              map veMask (variants shd') = map progMask (programs (shdSetup shd)) \<and>
              map ubSlot (uniformEntries shd') = map bindSlot (uniformBlocks (shdSetup shd)) \<and>
              map ubStage (uniformEntries shd') = map shaderStage (uniformBlocks (shdSetup shd)) \<and>
              getNumPrograms shd' = NumPrograms (shdSetup shd) \<and>
              getNumUniformBlockEntries shd' = NumUniformBlocks (shdSetup shd) \<and>
              shdSetup shd' = shdSetup shd \<and>
              (if dbg \<or> deviceContract dev
               then list_all (\<lambda>v. vertexShader v \<noteq> nullptr \<and> pixelShader v \<noteq> nullptr)
                      (variants shd')
               else True)) \<and>
         (isSetUp fac \<and> cooperative dev \<and> programsWellFormed (shdSetup shd) \<and>
          blocksWellFormed InvalidIndex (shdSetup shd) \<longrightarrow>
            (\<exists>shd' tr'. SetupResource dbg InvalidIndex dev fac shd tr = Inr (Valid, shd', tr')))"
proof (rule conjI)
  show "isSetUp fac \<and> cooperative dev \<and> programsWellFormed (shdSetup shd) \<and>
          blocksWellFormed InvalidIndex (shdSetup shd) \<longrightarrow>
            (\<exists>shd' tr'. SetupResource dbg InvalidIndex dev fac shd tr = Inr (Valid, shd', tr'))"
    using SetupResource_returns [of dev fac shd InvalidIndex dbg tr] assms by blast
next
  have "length (variants shd') = length (programs (shdSetup shd)) \<and>
        length (uniformEntries shd') = length (uniformBlocks (shdSetup shd)) \<and>
        map veMask (variants shd') = map progMask (programs (shdSetup shd)) \<and>
        map ubSlot (uniformEntries shd') = map bindSlot (uniformBlocks (shdSetup shd)) \<and>
        map ubStage (uniformEntries shd') = map shaderStage (uniformBlocks (shdSetup shd)) \<and>
        getNumPrograms shd' = NumPrograms (shdSetup shd) \<and>
        getNumUniformBlockEntries shd' = NumUniformBlocks (shdSetup shd) \<and>
        shdSetup shd' = shdSetup shd \<and>
        (if dbg \<or> deviceContract dev
         then list_all (\<lambda>v. vertexShader v \<noteq> nullptr \<and> pixelShader v \<noteq> nullptr)
                (variants shd')
         else True)"
    if run: "SetupResource dbg InvalidIndex dev fac shd tr = Inr (st, shd', tr')" for st shd' tr'
  proof -
  from SetupResource_Inr [OF run] obtain vs es where
    s: "shd' = shd\<lparr>variants := variants shd @ vs, uniformEntries := uniformEntries shd @ es\<rparr>" and
    m: "map veMask vs = map progMask (programs (shdSetup shd))" and
    n: "dbg \<or> deviceContract dev \<longrightarrow>
          list_all (\<lambda>v. vertexShader v \<noteq> nullptr \<and> pixelShader v \<noteq> nullptr) vs" and
    l: "list_all2 (entryFor (dbg \<or> deviceContract dev) InvalidIndex) (uniformBlocks (shdSetup shd)) es"
    by blast
  from assms s have v: "variants shd' = vs" and u: "uniformEntries shd' = es"
    and d: "shdSetup shd' = shdSetup shd"
    by (simp_all add: Empty_def)
  from m have lv: "length vs = length (programs (shdSetup shd))"
    by (metis length_map)
  from l have lu: "length es = length (uniformBlocks (shdSetup shd))"
    by (simp add: list_all2_lengthD)
  from entryFor_maps [OF l] m n lv lu show ?thesis
    by (simp add: v u d getNumPrograms_def NumPrograms_def getNumUniformBlockEntries_def
        NumUniformBlocks_def)
  qed
  then show "\<forall>st shd' tr'.
            SetupResource dbg InvalidIndex dev fac shd tr = Inr (st, shd', tr') \<longrightarrow>
              length (variants shd') = length (programs (shdSetup shd)) \<and>
              length (uniformEntries shd') = length (uniformBlocks (shdSetup shd)) \<and>
              map veMask (variants shd') = map progMask (programs (shdSetup shd)) \<and>
              map ubSlot (uniformEntries shd') = map bindSlot (uniformBlocks (shdSetup shd)) \<and>
              map ubStage (uniformEntries shd') = map shaderStage (uniformBlocks (shdSetup shd)) \<and>
              getNumPrograms shd' = NumPrograms (shdSetup shd) \<and>
              getNumUniformBlockEntries shd' = NumUniformBlocks (shdSetup shd) \<and>
              shdSetup shd' = shdSetup shd \<and>
              (if dbg \<or> deviceContract dev
               then list_all (\<lambda>v. vertexShader v \<noteq> nullptr \<and> pixelShader v \<noteq> nullptr)
                      (variants shd')
               else True)"
    by blast
qed

theorem SetupResource_entries_witness:
  "Empty scenarioShader \<and>
   SetupResource True (- 1) okDevice readyFactory scenarioShader [] =
     Inr (Valid, scenarioResource, scenarioTrace) \<and>
   isSetUp readyFactory \<and> cooperative okDevice \<and>
   programsWellFormed (shdSetup scenarioShader) \<and>
   blocksWellFormed (- 1) (shdSetup scenarioShader) \<and>
   length (programs (shdSetup scenarioShader)) = 1 \<and>
   length (uniformBlocks (shdSetup scenarioShader)) = 2 \<and>
   length (variants scenarioResource) = 1 \<and>
   length (uniformEntries scenarioResource) = 2 \<and>
   map veMask (variants scenarioResource) = [5] \<and>
   map ubSlot (uniformEntries scenarioResource) = [3, - 1] \<and>
   (\<exists>shd' tr'. SetupResource False (- 1) okDevice readyFactory scenarioShader [] =
      Inr (Valid, shd', tr'))"
proof -
  have a: "isSetUp readyFactory"
    by (simp add: isSetUp_def readyFactory_def)
  have b: "cooperative okDevice"
    by (simp add: cooperative_def okDevice_def SUCCEEDED_def)
  have c: "programsWellFormed (shdSetup scenarioShader)"
    by (simp add: programsWellFormed_def scenarioShader_def scenarioSetup_def)
  have d: "blocksWellFormed (- 1) (shdSetup scenarioShader)"
    by (simp add: blocksWellFormed_def scenarioShader_def scenarioSetup_def)
  note th = SetupResource_entries [OF scenario_Empty, where dev = okDevice and fac = readyFactory
      and InvalidIndex = "- 1" and tr = "[]"]
  from th [where dbg = True] scenario_run
  have e: "length (variants scenarioResource) = 1 \<and>
           length (uniformEntries scenarioResource) = 2 \<and>
           map veMask (variants scenarioResource) = [5] \<and>
           map ubSlot (uniformEntries scenarioResource) = [3, - 1]"
    by (simp add: scenarioShader_def scenarioSetup_def)
  from th [where dbg = False] a b c d
  have f: "\<exists>shd' tr'. SetupResource False (- 1) okDevice readyFactory scenarioShader [] =
      Inr (Valid, shd', tr')"
    by blast
  have g: "length (programs (shdSetup scenarioShader)) = 1 \<and>
           length (uniformBlocks (shdSetup scenarioShader)) = 2"
    by (simp add: scenarioShader_def scenarioSetup_def)
  from scenario_Empty scenario_run a b c d e f g show ?thesis
    by blast
qed

lemma RoundUp_16:
  fixes n :: int
  assumes "0 \<le> n" "n < 2 ^ 31"
  shows "int (toUINT (RoundUp n 16)) = ((n + 15) div 16) * 16"
    and "16 dvd toUINT (RoundUp n 16)"
    and "n \<le> int (toUINT (RoundUp n 16))"
    and "16 dvd m \<Longrightarrow> n \<le> int m \<Longrightarrow> toUINT (RoundUp n 16) \<le> m"
proof -
  define r where "r = ((n + 15) div 16) * 16"
  have lo: "n \<le> r" and hi: "r \<le> n + 15" and dv: "r mod 16 = 0"
    unfolding r_def by presburger+
  have "r < 2 ^ 32"
    using hi assms(2) by simp
  moreover have "0 \<le> r"
    using lo assms(1) by simp
  ultimately have md: "r mod 2 ^ 32 = r"
    by simp
  have ru: "RoundUp n 16 = r"
    by (simp add: RoundUp_def r_def)
  show eq: "int (toUINT (RoundUp n 16)) = ((n + 15) div 16) * 16"
    using md \<open>0 \<le> r\<close> by (simp add: toUINT_def ru) (simp add: r_def)
  then have eq': "int (toUINT (RoundUp n 16)) = r"
    by (simp add: r_def)
  from dv have "(16::int) dvd r"
    by presburger
  then have "int 16 dvd int (toUINT (RoundUp n 16))"
    by (simp add: eq')
  then show "16 dvd toUINT (RoundUp n 16)"
    by (simp only: int_dvd_int_iff)
  show "n \<le> int (toUINT (RoundUp n 16))"
    using lo by (simp add: eq')
  show "toUINT (RoundUp n 16) \<le> m" if "16 dvd m" "n \<le> int m"
  proof -
    from that(1) have "int m mod 16 = 0"
      by presburger
    with that(2) hi dv have "r \<le> int m"
      by presburger
    then show ?thesis
      using eq' by linarith
  qed
qed

text \<open>
  C2: when \<open>SetupResource\<close> returns (debug build, or a device that honours its contract),
  the uniform entry of every uniform block carries the block's shader stage and bind slot;
  its buffer is null if the bind slot is \<open>InvalidIndex\<close> and non-null otherwise; the
  buffers the call allocated are exactly those of the blocks with another slot, in order,
  each stored in its entry and requested with the block's rounded size; and for a byte size
  in \<open>0 .. 2^31 - 1\<close> the rounded size is the least multiple of 16 that is not below it.
\<close>

theorem SetupResource_uniformEntries:
  assumes "uniformEntries shd = []"
    and "SetupResource dbg InvalidIndex dev fac shd tr = Inr (st, shd', tr')"
    and "dbg \<or> deviceContract dev"
  shows "length (uniformEntries shd') = length (uniformBlocks (shdSetup shd)) \<and>
         (\<forall>i < length (uniformBlocks (shdSetup shd)).
            ubStage (uniformEntries shd' ! i) = shaderStage (uniformBlocks (shdSetup shd) ! i) \<and>
            ubSlot (uniformEntries shd' ! i) = bindSlot (uniformBlocks (shdSetup shd) ! i) \<and>
            (if bindSlot (uniformBlocks (shdSetup shd) ! i) = InvalidIndex
             then ubBuffer (uniformEntries shd' ! i) = nullptr
             else ubBuffer (uniformEntries shd' ! i) \<noteq> nullptr)) \<and>
         bufferAllocs (newEvents tr tr') =
           expectedAllocs InvalidIndex (uniformBlocks (shdSetup shd)) (uniformEntries shd') \<and>
         (\<forall>b \<in> set (uniformBlocks (shdSetup shd)).
            0 \<le> byteSize b \<and> byteSize b < 2 ^ 31 \<longrightarrow>
              16 dvd roundedSize b \<and> byteSize b \<le> int (roundedSize b) \<and>
              (\<forall>m. 16 dvd m \<and> byteSize b \<le> int m \<longrightarrow> roundedSize b \<le> m))"
proof -
  let ?bs = "uniformBlocks (shdSetup shd)"
  from SetupResource_Inr [OF assms(2)] obtain evsP evsU vs es where
    t: "tr' = tr @ InvalidateShaderState # evsP @ evsU" and
    s: "shd' = shd\<lparr>variants := variants shd @ vs, uniformEntries := uniformEntries shd @ es\<rparr>" and
    bP: "bufferAllocs evsP = []" and
    l: "list_all2 (entryFor (dbg \<or> deviceContract dev) InvalidIndex) ?bs es" and
    bU: "bufferAllocs evsU = expectedAllocs InvalidIndex ?bs es"
    by blast
  from assms(1) s have u: "uniformEntries shd' = es"
    by simp
  from l have len: "length es = length ?bs"
    by (simp add: list_all2_lengthD)
  have ent: "entryFor True InvalidIndex (?bs ! i) (es ! i)" if "i < length ?bs" for i
    using list_all2_nthD [OF l that] assms(3) by simp
  have a: "\<forall>i < length ?bs.
            ubStage (es ! i) = shaderStage (?bs ! i) \<and> ubSlot (es ! i) = bindSlot (?bs ! i) \<and>
            (if bindSlot (?bs ! i) = InvalidIndex then ubBuffer (es ! i) = nullptr
             else ubBuffer (es ! i) \<noteq> nullptr)"
    using ent by (auto simp: entryFor_def split: if_splits)
  have b: "bufferAllocs (newEvents tr tr') = expectedAllocs InvalidIndex ?bs es"
    using bP bU by (simp add: t newEvents_def bufferAllocs_append)
  have c: "\<forall>b \<in> set ?bs. 0 \<le> byteSize b \<and> byteSize b < 2 ^ 31 \<longrightarrow>
              16 dvd roundedSize b \<and> byteSize b \<le> int (roundedSize b) \<and>
              (\<forall>m. 16 dvd m \<and> byteSize b \<le> int m \<longrightarrow> roundedSize b \<le> m)"
    unfolding roundedSize_def using RoundUp_16(2,3,4) by blast
  from len a b c show ?thesis
    unfolding u by blast
qed

theorem SetupResource_uniformEntries_witness:
  "uniformEntries scenarioShader = [] \<and>
   SetupResource True (- 1) okDevice readyFactory scenarioShader [] =
     Inr (Valid, scenarioResource, scenarioTrace) \<and>
   uniformBlocks (shdSetup scenarioShader) =
     [\<lparr>bindSlot = 3, shaderStage = FragmentShader, byteSize = 20\<rparr>,
      \<lparr>bindSlot = - 1, shaderStage = FragmentShader, byteSize = 0\<rparr>] \<and>
   length (uniformEntries scenarioResource) = 2 \<and>
   ubBuffer (uniformEntries scenarioResource ! 0) \<noteq> nullptr \<and>
   ubSlot (uniformEntries scenarioResource ! 0) = 3 \<and>
   ubBuffer (uniformEntries scenarioResource ! 1) = nullptr \<and>
   bufferAllocs (newEvents [] scenarioTrace) = [(32, ubBuffer (uniformEntries scenarioResource ! 0))] \<and>
   roundedSize \<lparr>bindSlot = 3, shaderStage = FragmentShader, byteSize = 20\<rparr> = 32"
proof -
  have e: "uniformEntries scenarioShader = []"
    by (simp add: scenarioShader_def)
  have d: "True \<or> deviceContract okDevice"
    by simp
  have bs: "uniformBlocks (shdSetup scenarioShader) =
     [\<lparr>bindSlot = 3, shaderStage = FragmentShader, byteSize = 20\<rparr>,
      \<lparr>bindSlot = - 1, shaderStage = FragmentShader, byteSize = 0\<rparr>]"
    by (simp add: scenarioShader_def scenarioSetup_def)
  have r: "roundedSize \<lparr>bindSlot = 3, shaderStage = FragmentShader, byteSize = 20\<rparr> = 32"
    by (simp add: roundedSize_def RoundUp_def toUINT_def)
  note th = SetupResource_uniformEntries [OF e scenario_run d, unfolded bs]
  from th have l: "length (uniformEntries scenarioResource) = 2"
    by simp
  from th have e0: "ubBuffer (uniformEntries scenarioResource ! 0) \<noteq> nullptr \<and>
      ubSlot (uniformEntries scenarioResource ! 0) = 3"
    by auto
  from th have e1: "ubBuffer (uniformEntries scenarioResource ! 1) = nullptr"
    by auto
  obtain x y where xy: "uniformEntries scenarioResource = [x, y]"
    using l by (auto simp: length_Suc_conv numeral_2_eq_2)
  from th have al: "bufferAllocs (newEvents [] scenarioTrace) =
      [(32, ubBuffer (uniformEntries scenarioResource ! 0))]"
    by (simp add: expectedAllocs_def xy r)
  from e scenario_run bs l e0 e1 al r show ?thesis
    by blast
qed

subsection \<open>Destruction\<close>

lemma scenario_destroy:
  "DestroyResource True readyFactory scenarioResource scenarioTrace =
     Inr (scenarioShader,
          scenarioTrace @ [InvalidateShaderState, Release VertexStage 2, Release FragmentStage 3,
                           Release ConstantBuffer 4])"
  by (simp add: model_defs readyFactory_def scenarioShader_def scenarioResource_def)

text \<open>
  C3: when \<open>SetupResource\<close> has returned for a resource that was empty, \<open>DestroyResource\<close>
  on the result returns and leaves the resource without variants and without uniform
  entries; after invalidating the shader state it issues exactly the \<open>Release\<close> calls of
  the non-null objects the creation made, one for each and in the order of creation. These
  are the non-null vertex and fragment stages of the variants and the non-null buffers of
  the uniform entries; a null buffer entry has no \<open>Release\<close>.
\<close>

theorem create_destroy_roundtrip:
  assumes "Empty shd"
    and "SetupResource dbg InvalidIndex dev fac shd tr = Inr (st, shd1, tr1)"
  shows "\<exists>shd2 tr2.
           DestroyResource dbg fac shd1 tr1 = Inr (shd2, tr2) \<and>
           variants shd2 = [] \<and> uniformEntries shd2 = [] \<and> Empty shd2 \<and>
           newEvents tr1 tr2 =
             InvalidateShaderState # map (\<lambda>(k, p). Release k p) (created (newEvents tr tr1)) \<and>
           released (newEvents tr1 tr2) = created (newEvents tr tr1) \<and>
           created (newEvents tr tr1) =
             concat (map variantObjs (variants shd1)) @ concat (map bufferObjs (uniformEntries shd1))"
proof -
  from SetupResource_Inr [OF assms(2)] obtain evsP evsU vs es where
    pre: "if dbg then isValid fac \<and> d3d11Device fac \<noteq> nullptr else True" and
    rn: "renderer (pointers fac) \<noteq> None" and
    t: "tr1 = tr @ InvalidateShaderState # evsP @ evsU" and
    s: "shd1 = shd\<lparr>variants := variants shd @ vs, uniformEntries := uniformEntries shd @ es\<rparr>" and
    cP: "concat (map variantObjs vs) = created evsP" and
    cU: "created evsU = concat (map bufferObjs es)"
    by blast
  from assms(1) s have v: "variants shd1 = vs" and u: "uniformEntries shd1 = es"
    by (simp_all add: Empty_def)
  let ?objs = "concat (map variantObjs vs) @ concat (map bufferObjs es)"
  let ?tr2 = "tr1 @ InvalidateShaderState # map (\<lambda>(k, p). Release k p) ?objs"
  have cr: "created (newEvents tr tr1) = ?objs"
    using cP cU by (simp add: t newEvents_def created_append)
  have d: "DestroyResource dbg fac shd1 tr1 = Inr (Clear shd1, ?tr2)"
    using DestroyResource_eq [OF pre rn, of shd1 tr1] by (simp add: v u)
  have n: "newEvents tr1 ?tr2 = InvalidateShaderState # map (\<lambda>(k, p). Release k p) ?objs"
    by (simp add: newEvents_def)
  have r: "released (newEvents tr1 ?tr2) = ?objs"
    unfolding n by (simp add: released_map_Release released_append del: map_append)
  have c: "variants (Clear shd1) = [] \<and> uniformEntries (Clear shd1) = [] \<and> Empty (Clear shd1)"
    by (simp add: Clear_def Empty_def)
  from d n r c cr show ?thesis
    unfolding v u by (intro exI [of _ "Clear shd1"] exI [of _ ?tr2]) simp
qed

theorem create_destroy_roundtrip_witness:
  "Empty scenarioShader \<and>
   SetupResource True (- 1) okDevice readyFactory scenarioShader [] =
     Inr (Valid, scenarioResource, scenarioTrace) \<and>
   DestroyResource True readyFactory scenarioResource scenarioTrace =
     Inr (scenarioShader,
          scenarioTrace @ [InvalidateShaderState, Release VertexStage 2, Release FragmentStage 3,
                           Release ConstantBuffer 4]) \<and>
   (\<exists>shd2 tr2.
      DestroyResource True readyFactory scenarioResource scenarioTrace = Inr (shd2, tr2) \<and>
      Empty shd2 \<and>
      released (newEvents scenarioTrace tr2) =
        [(VertexStage, 2), (FragmentStage, 3), (ConstantBuffer, 4)])"
proof -
  have c: "created (newEvents [] scenarioTrace) =
             [(VertexStage, 2), (FragmentStage, 3), (ConstantBuffer, 4)]"
    by (simp add: newEvents_def scenarioTrace_def SUCCEEDED_def)
  from create_destroy_roundtrip [OF scenario_Empty scenario_run] obtain shd2 tr2 where
    "DestroyResource True readyFactory scenarioResource scenarioTrace = Inr (shd2, tr2)"
    "Empty shd2"
    "released (newEvents scenarioTrace tr2) = created (newEvents [] scenarioTrace)"
    by blast
  with c scenario_Empty scenario_run scenario_destroy show ?thesis
    by auto
qed

text \<open>
  C8: on a factory that is set up, \<open>DestroyResource\<close> on a resource without variants and
  uniform entries returns the resource as it was, still empty, and issues no \<open>Release\<close>:
  the only call it makes is the renderer's \<open>invalidateShaderState\<close>. On any resource, the
  \<open>Release\<close> calls are those of the non-null objects the resource holds when the call is
  made, so a call on a resource that still holds objects releases them whatever was
  released before.
\<close>

theorem DestroyResource_empty:
  assumes "isSetUp fac"
  shows "(Empty shd \<longrightarrow>
            DestroyResource dbg fac shd tr = Inr (shd, tr @ [InvalidateShaderState]) \<and>
            released (newEvents tr (tr @ [InvalidateShaderState])) = [] \<and>
            list_all (\<lambda>e. \<not> isRelease e) (newEvents tr (tr @ [InvalidateShaderState]))) \<and>
         (\<exists>shd' tr'.
            DestroyResource dbg fac shd tr = Inr (shd', tr') \<and> Empty shd' \<and>
            released (newEvents tr tr') =
              concat (map variantObjs (variants shd)) @ concat (map bufferObjs (uniformEntries shd)))"
proof -
  from assms have pre: "if dbg then isValid fac \<and> d3d11Device fac \<noteq> nullptr else True"
    and rn: "renderer (pointers fac) \<noteq> None"
    by (simp_all add: isSetUp_def)
  note eq = DestroyResource_eq [OF pre rn, of shd tr]
  have a: "DestroyResource dbg fac shd tr = Inr (shd, tr @ [InvalidateShaderState]) \<and>
           released (newEvents tr (tr @ [InvalidateShaderState])) = [] \<and>
           list_all (\<lambda>e. \<not> isRelease e) (newEvents tr (tr @ [InvalidateShaderState]))"
    if "Empty shd"
  proof -
    from that have "Clear shd = shd"
      by (simp add: Clear_def Empty_def)
    with eq that show ?thesis
      by (simp add: Empty_def newEvents_def)
  qed
  let ?objs = "concat (map variantObjs (variants shd)) @ concat (map bufferObjs (uniformEntries shd))"
  let ?tr' = "tr @ InvalidateShaderState # map (\<lambda>(k, p). Release k p) ?objs"
  have "released (newEvents tr ?tr') = ?objs"
    by (simp add: newEvents_def released_map_Release released_append del: map_append)
  moreover have "Empty (Clear shd)"
    by (simp add: Clear_def Empty_def)
  ultimately have b: "\<exists>shd' tr'.
            DestroyResource dbg fac shd tr = Inr (shd', tr') \<and> Empty shd' \<and>
            released (newEvents tr tr') = ?objs"
    using eq by blast
  from a b show ?thesis
    by blast
qed

theorem DestroyResource_empty_witness:
  "Empty scenarioShader \<and> isSetUp readyFactory \<and>
   DestroyResource True readyFactory scenarioShader [] =
     Inr (scenarioShader, [InvalidateShaderState]) \<and>
   DestroyResource False readyFactory scenarioShader [] =
     Inr (scenarioShader, [InvalidateShaderState])"
proof -
  have s: "isSetUp readyFactory"
    by (simp add: isSetUp_def readyFactory_def)
  from DestroyResource_empty [OF s, of scenarioShader True "[]"]
    DestroyResource_empty [OF s, of scenarioShader False "[]"] scenario_Empty s
  show ?thesis
    by simp
qed

subsection \<open>Setting the factory up\<close>

text \<open>
  C6: on a factory that \<open>Setup\<close> has set up, a second \<open>Setup\<close> in a debug build fails the
  assertion \<open>o_assert_dbg(!this->isValid)\<close>. The check is debug-only: in an optimized build
  the second \<open>Setup\<close> does not fail it and, given a renderer, stores the new pointers. After
  a \<open>Discard\<close> in between, \<open>Setup\<close> does not fail the assertion in a debug build either.
\<close>

theorem Setup_twice:
  assumes "Setup dbg0 ptrs0 fac0 = Inr fac1"
  shows "Setup True ptrs fac1 = Inl AssertDbgFailed \<and>
         Setup False ptrs fac1 \<noteq> Inl AssertDbgFailed \<and>
         (\<forall>r. renderer ptrs = Some r \<longrightarrow>
            Setup False ptrs fac1 =
              Inr (fac1\<lparr>isValid := True, pointers := ptrs, d3d11Device := rendererDevice r\<rparr>)) \<and>
         (\<exists>fac2. Discard True fac1 = Inr fac2 \<and> Setup True ptrs fac2 \<noteq> Inl AssertDbgFailed)"
proof -
  from assms have v: "isValid fac1"
    unfolding Setup_def by (auto split: if_splits option.splits)
  then show ?thesis
    unfolding Setup_def Discard_def o_assert_dbg_def
    by (auto split: option.splits)
qed

theorem Setup_twice_witness:
  "Setup True somePointers newFactory = Inr readyFactory \<and>
   Setup True somePointers readyFactory = Inl AssertDbgFailed \<and>
   Setup False somePointers readyFactory = Inr readyFactory \<and>
   (\<exists>fac2. Discard True readyFactory = Inr fac2 \<and>
      Setup True somePointers fac2 \<noteq> Inl AssertDbgFailed)"
proof -
  have s: "Setup True somePointers newFactory = Inr readyFactory"
    by (simp add: Setup_def o_assert_dbg_def somePointers_def newFactory_def readyFactory_def)
  have r: "renderer somePointers = Some \<lparr>rendererDevice = 7\<rparr>"
    by (simp add: somePointers_def)
  have e: "readyFactory\<lparr>isValid := True, pointers := somePointers,
             d3d11Device := rendererDevice \<lparr>rendererDevice = 7\<rparr>\<rparr> = readyFactory"
    by (simp add: readyFactory_def somePointers_def)
  from Setup_twice [OF s, of somePointers] r e s show ?thesis
    by simp
qed

subsection \<open>Order of the collaborator calls and outcomes\<close>

lemma createOk_imp_isCreate: "createOk e \<Longrightarrow> isCreate e"
  by (cases e) simp_all

lemma isCreate_not_invalidate: "isCreate e \<Longrightarrow> e \<noteq> InvalidateShaderState"
  by (cases e) simp_all

lemma isRelease_not_invalidate: "isRelease e \<Longrightarrow> e \<noteq> InvalidateShaderState"
  by (cases e) simp_all

lemma createOk_imp_not_failed: "createOk e \<Longrightarrow> \<not> createFailed e"
  by (cases e) simp_all

lemma createOk_isCreate: "list_all createOk evs \<Longrightarrow> list_all isCreate evs"
  by (induction evs) (simp_all add: createOk_imp_isCreate)

lemma isCreate_no_invalidate: "list_all isCreate evs \<Longrightarrow> InvalidateShaderState \<notin> set evs"
  using isCreate_not_invalidate by (auto simp: list_all_iff)

lemma isRelease_no_invalidate: "list_all isRelease evs \<Longrightarrow> InvalidateShaderState \<notin> set evs"
  using isRelease_not_invalidate by (auto simp: list_all_iff)

lemma isRelease_map_Release: "list_all isRelease (map (\<lambda>(k, p). Release k p) xs)"
  by (induction xs) auto

lemma createOk_not_failed: "list_all createOk evs \<Longrightarrow> \<not> list_ex createFailed evs"
  using createOk_imp_not_failed by (auto simp: list_all_iff list_ex_iff)

lemma faultEvents_isCreate:
  assumes "faultEvents flt evs"
  shows "list_all isCreate evs"
proof (cases "flt = AssertFailed")
  case False
  with assms show ?thesis
    by (simp add: faultEvents_def createOk_isCreate)
next
  case True
  with assms have ne: "evs \<noteq> []" and b: "list_all createOk (butlast evs)"
    and l: "createFailed (last evs)"
    by (simp_all add: faultEvents_def)
  from l have "isCreate (last evs)"
    by (cases "last evs") simp_all
  with createOk_isCreate [OF b] have "list_all isCreate (butlast evs @ [last evs])"
    by simp
  with ne show ?thesis
    by simp
qed

lemma faultEvents_failed:
  assumes "faultEvents flt evs"
  shows "list_ex createFailed evs = (flt = AssertFailed)"
    and "flt = AssertFailed \<Longrightarrow> evs \<noteq> [] \<and> createFailed (last evs)"
proof -
  show "list_ex createFailed evs = (flt = AssertFailed)"
  proof (cases "flt = AssertFailed")
    case False
    with assms show ?thesis
      by (simp add: faultEvents_def createOk_not_failed)
  next
    case True
    with assms have "evs \<noteq> []" "createFailed (last evs)"
      by (simp_all add: faultEvents_def)
    then have "\<exists>e \<in> set evs. createFailed e"
      using last_in_set by blast
    with True show ?thesis
      by (simp add: list_ex_iff)
  qed
  show "evs \<noteq> [] \<and> createFailed (last evs)" if "flt = AssertFailed"
    using assms that by (simp add: faultEvents_def)
qed

lemma DestroyResource_Inl:
  assumes "DestroyResource dbg fac shd tr = Inl (flt, tr')"
  shows "tr' = tr"
  using assms unfolding DestroyResource_def Let_def
  by (auto split: if_splits option.splits)

lemma DestroyResource_Inr:
  assumes "DestroyResource dbg fac shd tr = Inr (shd', tr')"
  shows "shd' = Clear shd \<and>
         tr' = tr @ InvalidateShaderState #
                 map (\<lambda>(k, p). Release k p)
                   (concat (map variantObjs (variants shd)) @
                    concat (map bufferObjs (uniformEntries shd)))"
proof -
  from assms have pre: "if dbg then isValid fac \<and> d3d11Device fac \<noteq> nullptr else True"
    and rn: "renderer (pointers fac) \<noteq> None"
    unfolding DestroyResource_def o_assert_dbg_def
    by (auto split: if_splits option.splits)
  from DestroyResource_eq [OF pre rn, of shd tr] assms show ?thesis
    by simp
qed

text \<open>
  C7: in \<open>SetupResource\<close> and in \<open>DestroyResource\<close>, the calls the operation adds to the
  trace are none at all (it faulted on its preconditions) or start with the renderer's
  \<open>invalidateShaderState\<close>, which occurs exactly once and is followed only by creation
  requests to the device (in \<open>SetupResource\<close>) or by \<open>Release\<close> calls (in
  \<open>DestroyResource\<close>). When the operation returns, the invalidation has been made.
\<close>

theorem invalidate_before_device_calls:
  "(case SetupResource dbg InvalidIndex dev fac shd tr of
      Inr (st, shd', tr') \<Rightarrow>
        (\<exists>rest. tr' = tr @ InvalidateShaderState # rest \<and>
                InvalidateShaderState \<notin> set rest \<and> list_all isCreate rest)
    | Inl (flt, tr') \<Rightarrow>
        tr' = tr \<or>
        (\<exists>rest. tr' = tr @ InvalidateShaderState # rest \<and>
                InvalidateShaderState \<notin> set rest \<and> list_all isCreate rest)) \<and>
   (case DestroyResource dbg fac shd tr of
      Inr (shd', tr') \<Rightarrow>
        (\<exists>rest. tr' = tr @ InvalidateShaderState # rest \<and>
                InvalidateShaderState \<notin> set rest \<and> list_all isRelease rest)
    | Inl (flt, tr') \<Rightarrow> tr' = tr)"
proof
  show "case SetupResource dbg InvalidIndex dev fac shd tr of
      Inr (st, shd', tr') \<Rightarrow>
        (\<exists>rest. tr' = tr @ InvalidateShaderState # rest \<and>
                InvalidateShaderState \<notin> set rest \<and> list_all isCreate rest)
    | Inl (flt, tr') \<Rightarrow>
        tr' = tr \<or>
        (\<exists>rest. tr' = tr @ InvalidateShaderState # rest \<and>
                InvalidateShaderState \<notin> set rest \<and> list_all isCreate rest)"
  proof (cases "SetupResource dbg InvalidIndex dev fac shd tr")
    case (Inl e)
    obtain flt tr' where e: "e = (flt, tr')"
      by (cases e)
    from SetupResource_Inl [OF Inl [unfolded e]]
    have "tr' = tr \<or> (\<exists>rest. tr' = tr @ InvalidateShaderState # rest \<and> list_all isCreate rest)"
      using faultEvents_isCreate createOk_isCreate by blast
    then have "tr' = tr \<or> (\<exists>rest. tr' = tr @ InvalidateShaderState # rest \<and>
                InvalidateShaderState \<notin> set rest \<and> list_all isCreate rest)"
      using isCreate_no_invalidate by blast
    then show ?thesis
      by (simp add: Inl e)
  next
    case (Inr r)
    obtain st shd' tr' where r: "r = (st, shd', tr')"
      by (cases r)
    from SetupResource_Inr [OF Inr [unfolded r]] obtain evsP evsU where
      t: "tr' = tr @ InvalidateShaderState # evsP @ evsU" and
      ok: "list_all createOk evsP" "list_all createOk evsU"
      by blast
    from ok have "list_all isCreate (evsP @ evsU)"
      by (simp add: createOk_isCreate)
    with t have "\<exists>rest. tr' = tr @ InvalidateShaderState # rest \<and>
                InvalidateShaderState \<notin> set rest \<and> list_all isCreate rest"
      using isCreate_no_invalidate by blast
    then show ?thesis
      by (simp add: Inr r)
  qed
  show "case DestroyResource dbg fac shd tr of
      Inr (shd', tr') \<Rightarrow>
        (\<exists>rest. tr' = tr @ InvalidateShaderState # rest \<and>
                InvalidateShaderState \<notin> set rest \<and> list_all isRelease rest)
    | Inl (flt, tr') \<Rightarrow> tr' = tr"
  proof (cases "DestroyResource dbg fac shd tr")
    case (Inl e)
    obtain flt tr' where e: "e = (flt, tr')"
      by (cases e)
    from DestroyResource_Inl [OF Inl [unfolded e]] show ?thesis
      by (simp add: Inl e)
  next
    case (Inr r)
    obtain shd' tr' where r: "r = (shd', tr')"
      by (cases r)
    let ?rest = "map (\<lambda>(k, p). Release k p)
                   (concat (map variantObjs (variants shd)) @
                    concat (map bufferObjs (uniformEntries shd)))"
    from DestroyResource_Inr [OF Inr [unfolded r]] have "tr' = tr @ InvalidateShaderState # ?rest"
      by simp
    moreover have "list_all isRelease ?rest"
      by (rule isRelease_map_Release)
    ultimately have "\<exists>rest. tr' = tr @ InvalidateShaderState # rest \<and>
                InvalidateShaderState \<notin> set rest \<and> list_all isRelease rest"
      using isRelease_no_invalidate by blast
    then show ?thesis
      by (simp add: Inr r)
  qed
qed

theorem invalidate_before_device_calls_witness:
  "SetupResource True (- 1) okDevice readyFactory scenarioShader [] =
     Inr (Valid, scenarioResource, scenarioTrace) \<and>
   (\<exists>rest. scenarioTrace = InvalidateShaderState # rest \<and>
      InvalidateShaderState \<notin> set rest \<and> list_all isCreate rest \<and> length rest = 3)"
proof -
  from invalidate_before_device_calls [where dbg = True and InvalidIndex = "- 1" and dev = okDevice and fac = readyFactory
      and shd = scenarioShader and tr = "[]"]
  obtain rest where "scenarioTrace = InvalidateShaderState # rest"
    "InvalidateShaderState \<notin> set rest" "list_all isCreate rest"
    by (auto simp: scenario_run)
  moreover from this(1) have "length rest = 3"
    by (auto simp: scenarioTrace_def)
  ultimately show ?thesis
    using scenario_run by blast
qed

text \<open>
  C5: \<open>SetupResource\<close> has two outcomes only. When it returns, it returns
  \<open>ResourceState::Valid\<close> and no creation request of the call was rejected by the device.
  When the device rejects a creation request, the call ends in the failed \<open>o_assert\<close>
  directly after that request, never in a returned state; no other fault follows a
  rejected request.
\<close>

theorem SetupResource_valid_or_fault:
  "(case SetupResource dbg InvalidIndex dev fac shd tr of
      Inr (st, shd', tr') \<Rightarrow> st = Valid \<and> \<not> list_ex createFailed (newEvents tr tr')
    | Inl (flt, tr') \<Rightarrow>
        (if list_ex createFailed (newEvents tr tr')
         then flt = AssertFailed \<and> createFailed (last tr')
         else flt \<noteq> AssertFailed))"
proof (cases "SetupResource dbg InvalidIndex dev fac shd tr")
  case (Inr r)
  obtain st shd' tr' where r: "r = (st, shd', tr')"
    by (cases r)
  from SetupResource_Inr [OF Inr [unfolded r]] obtain evsP evsU where
    v: "st = Valid" and
    t: "tr' = tr @ InvalidateShaderState # evsP @ evsU" and
    ok: "list_all createOk evsP" "list_all createOk evsU"
    by blast
  from ok have "list_all createOk (evsP @ evsU)"
    by simp
  then have "\<not> list_ex createFailed (evsP @ evsU)"
    by (rule createOk_not_failed)
  then have "\<not> list_ex createFailed (newEvents tr tr')"
    by (simp add: t newEvents_def)
  with v show ?thesis
    by (simp add: Inr r)
next
  case (Inl e)
  obtain flt tr' where e: "e = (flt, tr')"
    by (cases e)
  from SetupResource_Inl [OF Inl [unfolded e]]
  consider "tr' = tr" "flt \<noteq> AssertFailed"
    | evs where "tr' = tr @ InvalidateShaderState # evs" "faultEvents flt evs"
    by (auto simp: faultEvents_def)
  then have "if list_ex createFailed (newEvents tr tr')
         then flt = AssertFailed \<and> createFailed (last tr')
         else flt \<noteq> AssertFailed"
  proof cases
    case 1
    then show ?thesis
      by (simp add: newEvents_def)
  next
    case 2
    have n: "list_ex createFailed (newEvents tr tr') = (flt = AssertFailed)"
      using faultEvents_failed(1) [OF 2(2)] by (simp add: 2(1) newEvents_def)
    show ?thesis
    proof (cases "flt = AssertFailed")
      case True
      from faultEvents_failed(2) [OF 2(2) True] have "createFailed (last tr')"
        by (simp add: 2(1))
      with n True show ?thesis
        by simp
    next
      case False
      with n show ?thesis
        by simp
    qed
  qed
  then show ?thesis
    by (simp add: Inl e)
qed

lemma scenario_failing_run:
  "SetupResource True (- 1) failingDevice readyFactory scenarioShader [] =
     Inl (AssertFailed,
          [InvalidateShaderState,
           DeviceCreate (CreateVertexShader 100 64) (- 2147467259) nullptr])"
  by (simp add: model_defs failingDevice_def readyFactory_def scenarioShader_def scenarioSetup_def)

theorem SetupResource_valid_or_fault_witness:
  "SetupResource True (- 1) okDevice readyFactory scenarioShader [] =
     Inr (Valid, scenarioResource, scenarioTrace) \<and>
   \<not> list_ex createFailed (newEvents [] scenarioTrace) \<and>
   SetupResource True (- 1) failingDevice readyFactory scenarioShader [] =
     Inl (AssertFailed,
          [InvalidateShaderState,
           DeviceCreate (CreateVertexShader 100 64) (- 2147467259) nullptr]) \<and>
   list_ex createFailed
     (newEvents [] [InvalidateShaderState,
                    DeviceCreate (CreateVertexShader 100 64) (- 2147467259) nullptr]) \<and>
   createFailed (last [InvalidateShaderState,
                    DeviceCreate (CreateVertexShader 100 64) (- 2147467259) nullptr])"
proof -
  from SetupResource_valid_or_fault [where dbg = True and InvalidIndex = "- 1" and dev = okDevice and fac = readyFactory
      and shd = scenarioShader and tr = "[]"]
  have a: "\<not> list_ex createFailed (newEvents [] scenarioTrace)"
    by (simp add: scenario_run)
  have b: "list_ex createFailed
     (newEvents [] [InvalidateShaderState,
                    DeviceCreate (CreateVertexShader 100 64) (- 2147467259) nullptr])"
    by (simp add: newEvents_def SUCCEEDED_def)
  from SetupResource_valid_or_fault [where dbg = True and InvalidIndex = "- 1"
      and dev = failingDevice and fac = readyFactory and shd = scenarioShader and tr = "[]"] b
  have c: "createFailed (last [InvalidateShaderState,
                    DeviceCreate (CreateVertexShader 100 64) (- 2147467259) nullptr])"
    by (simp add: scenario_failing_run)
  from a b c scenario_run scenario_failing_run show ?thesis
    by blast
qed

subsection \<open>A description without programs\<close>

lemma noPrograms_run:
  "SetupResource True (- 1) okDevice readyFactory noProgramsShader [] =
     Inr (Valid, noProgramsResource, noProgramsTrace)"
  by (simp add: model_defs okDevice_def readyFactory_def noProgramsShader_def noProgramsSetup_def
      noProgramsResource_def noProgramsTrace_def)

text \<open>
  C4, counterexample: for the description without programs, on a set-up factory in a debug
  build, \<open>SetupResource\<close> fails no precondition; it asks the device for a buffer and
  returns \<open>ResourceState::Valid\<close>.
\<close>

theorem SetupResource_no_programs_counterexample:
  "NumPrograms (shdSetup noProgramsShader) = 0 \<and>
   SetupResource True (- 1) okDevice readyFactory noProgramsShader [] =
     Inr (Valid, noProgramsResource, noProgramsTrace) \<and>
   length (bufferAllocs noProgramsTrace) = 1"
  using noPrograms_run
  by (simp add: NumPrograms_def noProgramsShader_def noProgramsSetup_def noProgramsTrace_def)

text \<open>
  C4, amended: \<open>SetupResource\<close> does not validate that the description has programs. For a
  description without programs whose uniform blocks satisfy the data model's invariant, an
  empty resource, a set-up factory and a device whose creation calls succeed, it returns
  \<open>ResourceState::Valid\<close>; the resource then has no variant and one uniform entry per
  uniform block, and after the invalidation every call of the operation is a buffer
  creation request, one for each block with a real bind slot: no shader-stage creation is
  attempted.
\<close>

theorem SetupResource_no_programs:
  assumes "NumPrograms (shdSetup shd) = 0"
    and "Empty shd" "isSetUp fac" "cooperative dev"
    and "blocksWellFormed InvalidIndex (shdSetup shd)"
  shows "\<exists>shd' rest.
           SetupResource dbg InvalidIndex dev fac shd tr =
             Inr (Valid, shd', tr @ InvalidateShaderState # rest) \<and>
           variants shd' = [] \<and>
           length (uniformEntries shd') = length (uniformBlocks (shdSetup shd)) \<and>
           length (bufferAllocs rest) = length rest \<and>
           bufferAllocs rest =
             expectedAllocs InvalidIndex (uniformBlocks (shdSetup shd)) (uniformEntries shd')"
proof -
  let ?desc = "shdSetup shd"
  from assms(1) have np: "programs ?desc = []"
    by (simp add: NumPrograms_def)
  then have pw: "programsWellFormed ?desc"
    by (simp add: programsWellFormed_def)
  from SetupResource_returns [OF assms(4,3,2) pw assms(5)] obtain shd' tr' where
    run: "SetupResource dbg InvalidIndex dev fac shd tr = Inr (Valid, shd', tr')"
    by blast
  from SetupResource_Inr [OF run] obtain evsP evsU vs es where
    t: "tr' = tr @ InvalidateShaderState # evsP @ evsU" and
    s: "shd' = shd\<lparr>variants := variants shd @ vs, uniformEntries := uniformEntries shd @ es\<rparr>" and
    m: "map veMask vs = map progMask (programs ?desc)" and
    lP: "length evsP = 2 * length (programs ?desc)" and
    l: "list_all2 (entryFor (dbg \<or> deviceContract dev) InvalidIndex) (uniformBlocks ?desc) es" and
    bU: "bufferAllocs evsU = expectedAllocs InvalidIndex (uniformBlocks ?desc) es" and
    nU: "length (bufferAllocs evsU) = length evsU"
    by blast
  from m np have vs: "vs = []"
    by simp
  from lP np have eP: "evsP = []"
    by simp
  from assms(2) s vs have v: "variants shd' = []" and u: "uniformEntries shd' = es"
    by (simp_all add: Empty_def)
  from l have len: "length es = length (uniformBlocks ?desc)"
    by (simp add: list_all2_lengthD)
  from run t eP v u len bU nU show ?thesis
    by (intro exI [of _ shd'] exI [of _ evsU]) simp
qed

theorem SetupResource_no_programs_witness:
  "NumPrograms (shdSetup noProgramsShader) = 0 \<and> Empty noProgramsShader \<and>
   isSetUp readyFactory \<and> cooperative okDevice \<and>
   blocksWellFormed (- 1) (shdSetup noProgramsShader) \<and>
   (\<exists>shd' rest.
      SetupResource False (- 1) okDevice readyFactory noProgramsShader [] =
        Inr (Valid, shd', InvalidateShaderState # rest) \<and>
      variants shd' = [] \<and> length (uniformEntries shd') = 1 \<and>
      length (bufferAllocs rest) = length rest)"
proof -
  have a: "NumPrograms (shdSetup noProgramsShader) = 0"
    by (simp add: NumPrograms_def noProgramsShader_def noProgramsSetup_def)
  have b: "Empty noProgramsShader"
    by (simp add: Empty_def noProgramsShader_def)
  have c: "isSetUp readyFactory"
    by (simp add: isSetUp_def readyFactory_def)
  have d: "cooperative okDevice"
    by (simp add: cooperative_def okDevice_def SUCCEEDED_def)
  have e: "blocksWellFormed (- 1) (shdSetup noProgramsShader)"
    by (simp add: blocksWellFormed_def noProgramsShader_def noProgramsSetup_def)
  have n: "length (uniformBlocks (shdSetup noProgramsShader)) = 1"
    by (simp add: noProgramsShader_def noProgramsSetup_def)
  from SetupResource_no_programs [OF a b c d e, of False "[]"] n a b c d e show ?thesis
    by auto
qed

section \<open>Properties of the GPU particles sample\<close>

lemma int32_parity: "int32 x mod 2 = x mod 2"
proof -
  define k :: int where "k = 2 ^ 30"
  have p31: "(2::int) ^ 31 = 2 * k"
    by (simp add: k_def)
  have "(2::int) dvd 2 ^ 32" by simp
  then have "((x + 2 * k) mod 2 ^ 32) mod 2 = (x + 2 * k) mod 2"
    by (rule mod_mod_cancel)
  moreover have "(y - 2 * k) mod 2 = y mod 2" for y
    by presburger
  moreover have "(x + 2 * k) mod 2 = x mod 2"
    by presburger
  ultimately show ?thesis
    by (simp only: int32_def p31)
qed

lemma cmod_parity: "cmod x 2 mod 2 = x mod 2"
proof -
  have "(x - 2 * k) mod 2 = x mod 2" for k :: int
    by presburger
  then show ?thesis
    by (simp only: cmod_def)
qed

lemma curNumParticles_step:
  assumes "0 \<le> curNumParticles a" "curNumParticles a \<le> MaxNumParticles"
  shows "curNumParticles (fst (OnRunning a)) = min (curNumParticles a + 100) MaxNumParticles"
  using assms
  by (simp add: OnRunning_def Let_def int32_def MaxNumParticles_def NumParticlesX_def
      NumParticlesY_def NumParticlesEmittedPerFrame_def min_def)

text \<open>
  C9: after \<open>OnRunning\<close> has run \<open>n\<close> times on the freshly constructed application,
  \<open>curNumParticles\<close> is \<open>min (n * NumParticlesEmittedPerFrame) MaxNumParticles\<close>: it grows
  by 100 per frame, is clamped at \<open>1024 * 1024\<close> and never exceeds it. This holds for every
  \<open>n\<close>, the frames \<open>n \<ge> 1\<close> included; the 32-bit addition never wraps.
\<close>

theorem curNumParticles_frames:
  "curNumParticles (frames n) = min (int n * NumParticlesEmittedPerFrame) MaxNumParticles
   \<and> curNumParticles (frames n) \<le> MaxNumParticles
   \<and> MaxNumParticles = 1024 * 1024"
proof (induction n)
  case 0
  show ?case
    by (simp add: newApp_def MaxNumParticles_def NumParticlesX_def NumParticlesY_def)
next
  case (Suc n)
  have lo: "0 \<le> curNumParticles (frames n)"
    using Suc by (simp add: NumParticlesEmittedPerFrame_def MaxNumParticles_def
        NumParticlesX_def NumParticlesY_def)
  have hi: "curNumParticles (frames n) \<le> MaxNumParticles"
    using Suc by simp
  have "curNumParticles (frames (Suc n)) = min (curNumParticles (frames n) + 100) MaxNumParticles"
    using curNumParticles_step [OF lo hi] by simp
  also have "\<dots> = min (int (Suc n) * NumParticlesEmittedPerFrame) MaxNumParticles"
    using Suc by (simp add: NumParticlesEmittedPerFrame_def min_def algebra_simps)
  finally show ?case
    by (simp add: MaxNumParticles_def NumParticlesX_def NumParticlesY_def)
qed

text \<open>
  C10: in every frame, whatever the value of \<open>frameCount\<close>, the index of the particle
  buffer read from, \<open>(frameCount + 1) % 2\<close>, and the index of the buffer rendered to,
  \<open>frameCount % 2\<close>, differ: the update pass never reads and writes the same buffer.
\<close>

theorem pingpong_distinct:
  "readIndex (snd (OnRunning this)) \<noteq> drawIndex (snd (OnRunning this))"
proof -
  define fc where "fc = int32 (frameCount this + 1)"
  have r: "readIndex (snd (OnRunning this)) = cmod (int32 (fc + 1)) 2"
    by (simp add: OnRunning_def Let_def fc_def NumParticleBuffers_def)
  have d: "drawIndex (snd (OnRunning this)) = cmod fc 2"
    by (simp add: OnRunning_def Let_def fc_def NumParticleBuffers_def)
  have "cmod (int32 (fc + 1)) 2 mod 2 = (fc + 1) mod 2"
    by (simp only: cmod_parity int32_parity)
  moreover have "cmod fc 2 mod 2 = fc mod 2"
    by (rule cmod_parity)
  moreover have "(fc + 1) mod 2 \<noteq> fc mod 2"
    by presburger
  ultimately have "cmod (int32 (fc + 1)) 2 \<noteq> cmod fc 2"
    by metis
  then show ?thesis
    unfolding r d .
qed

end
